theory Spec2Isabelle
  imports Main "HOL-Library.AList"
begin

section \<open>Python values, strings and errors\<close>

text \<open>
  A field of an EnergyPlus object holds a plain value or, while a rename is pending, a
  Python list \<^verbatim>\<open>[old, new]\<close>. Nothing in \<^verbatim>\<open>hvacbuilder.py\<close> stops a list from being
  staged on top of a list, so the value type is recursive.
\<close>

datatype fieldvalue = Str string | Lst "fieldvalue list"

text \<open>
  The exceptions the code can raise. \<^verbatim>\<open>WhichLoopError\<close> itself carries no data; the
  arguments of the constructor record what \<^verbatim>\<open>trimfields\<close> prints to standard output
  before it raises: the line \<^verbatim>\<open>"%s - %s" % (idfobject.key, idfobject.Name)\<close> and the list of
  prefixes printed after it.
\<close>

datatype error =
    WhichLoopError string "string list"
  | BadEPFieldError
  | IndexError
  | KeyError
  | ValueError
  | TypeError
  | AttributeError
  | UnboundLocalError
  | UnknownComponentTypeError

definition bindE :: "error + 'a \<Rightarrow> ('a \<Rightarrow> error + 'b) \<Rightarrow> error + 'b" where
  "bindE m f = (case m of Inl e \<Rightarrow> Inl e | Inr x \<Rightarrow> f x)"

fun mapE :: "('a \<Rightarrow> error + 'b) \<Rightarrow> 'a list \<Rightarrow> error + 'b list" where
  "mapE f [] = Inr []"
| "mapE f (x # xs) =
     (case f x of Inl e \<Rightarrow> Inl e
      | Inr y \<Rightarrow> (case mapE f xs of Inl e \<Rightarrow> Inl e | Inr ys \<Rightarrow> Inr (y # ys)))"

text \<open>\<^verbatim>\<open>s.startswith(p)\<close>, \<^verbatim>\<open>s.endswith(p)\<close> and \<^verbatim>\<open>s.find(sub) != -1\<close>.\<close>

definition py_startswith :: "string \<Rightarrow> string \<Rightarrow> bool" where
  "py_startswith s p = (take (length p) s = p)"

definition py_endswith :: "string \<Rightarrow> string \<Rightarrow> bool" where
  "py_endswith s p = (length p \<le> length s \<and> drop (length s - length p) s = p)"

fun py_contains :: "string \<Rightarrow> string \<Rightarrow> bool" where
  "py_contains [] sub = (sub = [])"
| "py_contains (c # s) sub = (py_startswith (c # s) sub \<or> py_contains s sub)"

text \<open>
  \<^verbatim>\<open>s.strip() == ''\<close>: every character is white space. Of the characters that
  \<^verbatim>\<open>str.strip()\<close> removes, those with a code below 256 are the blank, the controls
  \<^verbatim>\<open>0x09\<close> to \<^verbatim>\<open>0x0D\<close> and \<^verbatim>\<open>0x1C\<close> to \<^verbatim>\<open>0x1F\<close>, \<^verbatim>\<open>0x85\<close> and \<^verbatim>\<open>0xA0\<close>.
\<close>

definition py_isspace :: "char \<Rightarrow> bool" where
  "py_isspace c =
     (c \<in> set [CHR '' '', CHR 0x09, CHR 0x0A, CHR 0x0B, CHR 0x0C, CHR 0x0D,
                 CHR 0x1C, CHR 0x1D, CHR 0x1E, CHR 0x1F, CHR 0x85, CHR 0xA0])"

definition strip_is_empty :: "string \<Rightarrow> bool" where
  "strip_is_empty s = list_all py_isspace s"

section \<open>The record store: objects and the document\<close>

text \<open>
  An \<^verbatim>\<open>EpBunch\<close>: \<open>obj\<close> is the list of field values (the object type first), \<open>objls\<close>
  the field names of the schema in declared order (\<^verbatim>\<open>key\<close> first) and \<open>objidd\<close> the
  schema entry of each field, a dictionary from attribute to a list of strings.
\<close>

record epbunch =
  obj :: "fieldvalue list"
  objls :: "string list"
  objidd :: "(string \<times> string list) list list"

fun index_of :: "'a \<Rightarrow> 'a list \<Rightarrow> nat option" where
  "index_of x [] = None"
| "index_of x (y # ys) = (if x = y then Some 0 else map_option Suc (index_of x ys))"

text \<open>
  Modelled from the spec: the record store's \<^verbatim>\<open>getField(object, fieldName)\<close> and
  \<^verbatim>\<open>setField(object, fieldName, value)\<close> (the class \<^verbatim>\<open>EpBunch\<close> of
  \<^verbatim>\<open>eppy.bunch_subclass\<close> is not among the sources). Both fail with
  \<^verbatim>\<open>BadEPFieldError\<close> when the schema has no such field. A field of the schema that lies
  beyond the stored values reads as blank, and writing it pads the values with blanks.
\<close>

definition getfield :: "epbunch \<Rightarrow> string \<Rightarrow> error + fieldvalue" where
  "getfield b name =
     (case index_of name (objls b) of
        None \<Rightarrow> Inl BadEPFieldError
      | Some i \<Rightarrow> Inr (if i < length (obj b) then obj b ! i else Str ''''))"

definition setfield :: "epbunch \<Rightarrow> string \<Rightarrow> fieldvalue \<Rightarrow> error + epbunch" where
  "setfield b name v =
     (case index_of name (objls b) of
        None \<Rightarrow> Inl BadEPFieldError
      | Some i \<Rightarrow>
          Inr (b\<lparr>obj := (obj b @ replicate (Suc i - length (obj b)) (Str ''''))[i := v]\<rparr>))"

text \<open>
  The document: \<open>dtls\<close> is \<^verbatim>\<open>idf.model.dtls\<close>, the object types in schema order, and
  \<open>idfobjects\<close> the dictionary \<^verbatim>\<open>idf.idfobjects\<close> from an object type to its objects, an
  association list read with \<open>map_of\<close> and written with \<open>AList.update\<close>. The schema
  \<open>idd_info\<close> gives the field names and the schema entries of each object type.
\<close>

record idf =
  dtls :: "string list"
  idfobjects :: "(string \<times> epbunch list) list"
  idd_info :: "(string \<times> string list \<times> (string \<times> string list) list list) list"

text \<open>
  Python passes objects by reference, and the same component may be reached through several
  variables. A reference names an object by its type and its position in the list of the
  objects of that type; objects are only ever appended to these lists, so a reference stays
  valid. A reference that names no object is an error of the model's own.
\<close>

type_synonym ref = "string \<times> nat"

definition deref :: "idf \<Rightarrow> ref \<Rightarrow> error + epbunch" where
  "deref d r =
     (case map_of (idfobjects d) (fst r) of
        None \<Rightarrow> Inl KeyError
      | Some os \<Rightarrow> if snd r < length os then Inr (os ! snd r) else Inl IndexError)"

definition store :: "idf \<Rightarrow> ref \<Rightarrow> epbunch \<Rightarrow> idf" where
  "store d r b =
     (case map_of (idfobjects d) (fst r) of
        None \<Rightarrow> d
      | Some os \<Rightarrow> d\<lparr>idfobjects := AList.update (fst r) (os[snd r := b]) (idfobjects d)\<rparr>)"

definition getitem :: "idf \<Rightarrow> ref \<Rightarrow> string \<Rightarrow> error + fieldvalue" where
  "getitem d r name = bindE (deref d r) (\<lambda>b. getfield b name)"

definition setitem :: "idf \<Rightarrow> ref \<Rightarrow> string \<Rightarrow> fieldvalue \<Rightarrow> error + idf" where
  "setitem d r name v =
     bindE (deref d r) (\<lambda>b. bindE (setfield b name v) (\<lambda>b'. Inr (store d r b')))"

section \<open>Port resolution\<close>

definition getfieldnamesendswith :: "epbunch \<Rightarrow> string \<Rightarrow> string list" where
  "getfieldnamesendswith idfobject endswith =
     filter (\<lambda>name. py_endswith name endswith) (objls idfobject)"

definition getnodefieldname ::
  "epbunch \<Rightarrow> string \<Rightarrow> string option \<Rightarrow> string option \<Rightarrow> error + string" where
  "getnodefieldname idfobject endswith fluid startswith =
     (let startswith1 = (case startswith of None \<Rightarrow> '''' | Some s \<Rightarrow> s);
          fluid1 = (case fluid of None \<Rightarrow> '''' | Some f \<Rightarrow> f);
          nodenames0 = getfieldnamesendswith idfobject endswith;
          nodenames = filter (\<lambda>name. py_startswith name startswith1) nodenames0;
          fnodenames0 = filter (\<lambda>nd. py_contains nd fluid1) nodenames;
          fnodenames = filter (\<lambda>name. py_startswith name startswith1) fnodenames0
      in if length fnodenames = 0
         then (case nodenames of [] \<Rightarrow> Inl IndexError | nodename # _ \<Rightarrow> Inr nodename)
         else Inr (hd fnodenames))"

section \<open>Rename propagation\<close>

text \<open>First pass of \<^verbatim>\<open>renamenodes\<close>: every list value not yet seen is appended to \<open>renameds\<close>.\<close>

definition gather_value :: "fieldvalue list list \<Rightarrow> fieldvalue \<Rightarrow> fieldvalue list list" where
  "gather_value renameds fieldvalue =
     (case fieldvalue of
        Lst xs \<Rightarrow> if xs \<in> set renameds then renameds else renameds @ [xs]
      | Str _ \<Rightarrow> renameds)"

definition gather_object :: "fieldvalue list list \<Rightarrow> epbunch \<Rightarrow> fieldvalue list list" where
  "gather_object renameds idfobject = foldl gather_value renameds (obj idfobject)"

fun gather_keys :: "idf \<Rightarrow> string list \<Rightarrow> fieldvalue list list \<Rightarrow> error + fieldvalue list list" where
  "gather_keys d [] renameds = Inr renameds"
| "gather_keys d (key # keys) renameds =
     (case map_of (idfobjects d) key of
        None \<Rightarrow> Inl KeyError
      | Some os \<Rightarrow> gather_keys d keys (foldl gather_object renameds os))"

text \<open>
  \<^verbatim>\<open>dict(renameds)\<close>: every element must have exactly two items (\<^verbatim>\<open>ValueError\<close>
  otherwise) and its first item must be hashable, which a list is not (\<^verbatim>\<open>TypeError\<close>); a
  later pair with the same key replaces an earlier one.
\<close>

fun pydict ::
  "fieldvalue list list \<Rightarrow> (string \<Rightarrow> fieldvalue option) \<Rightarrow> error + (string \<Rightarrow> fieldvalue option)" where
  "pydict [] m = Inr m"
| "pydict (p # ps) m =
     (case p of
        [k, v] \<Rightarrow> (case k of Str s \<Rightarrow> pydict ps (m(s \<mapsto> v)) | Lst _ \<Rightarrow> Inl TypeError)
      | _ \<Rightarrow> Inl ValueError)"

text \<open>
  Second pass, one field: the body of the innermost loop of \<^verbatim>\<open>renamenodes\<close>. The
  dictionary is built (and its error raised) only when a field of the given type is met.
\<close>

definition rename_field ::
  "string \<Rightarrow> error + (string \<Rightarrow> fieldvalue option) \<Rightarrow> (string \<times> string list) list \<Rightarrow> fieldvalue
     \<Rightarrow> error + fieldvalue" where
  "rename_field fieldtype tempdct itsidd fieldvalue =
     (case map_of itsidd ''type'' of
        None \<Rightarrow> Inr fieldvalue
      | Some [] \<Rightarrow> Inl IndexError
      | Some (t # _) \<Rightarrow>
          if t = fieldtype then
            (case tempdct of
               Inl e \<Rightarrow> Inl e
             | Inr m \<Rightarrow>
                 (case fieldvalue of
                    Lst xs \<Rightarrow> if xs = [] then Inl IndexError else Inr (last xs)
                  | Str s \<Rightarrow> (case m s of Some v \<Rightarrow> Inr v | None \<Rightarrow> Inr fieldvalue)))
          else Inr fieldvalue)"

text \<open>
  \<^verbatim>\<open>for i, fieldvalue in enumerate(idfobject.obj): itsidd = idfobject.objidd[i]\<close>: the two
  lists are walked together, and a value without a schema entry is an \<^verbatim>\<open>IndexError\<close>.
\<close>

fun rename_fields ::
  "string \<Rightarrow> error + (string \<Rightarrow> fieldvalue option) \<Rightarrow> fieldvalue list
     \<Rightarrow> (string \<times> string list) list list \<Rightarrow> error + fieldvalue list" where
  "rename_fields fieldtype tempdct [] idds = Inr []"
| "rename_fields fieldtype tempdct (v # vs) [] = Inl IndexError"
| "rename_fields fieldtype tempdct (v # vs) (itsidd # idds) =
     (case rename_field fieldtype tempdct itsidd v of
        Inl e \<Rightarrow> Inl e
      | Inr v' \<Rightarrow>
          (case rename_fields fieldtype tempdct vs idds of
             Inl e \<Rightarrow> Inl e
           | Inr vs' \<Rightarrow> Inr (v' # vs')))"

definition rename_object ::
  "string \<Rightarrow> error + (string \<Rightarrow> fieldvalue option) \<Rightarrow> epbunch \<Rightarrow> error + epbunch" where
  "rename_object fieldtype tempdct idfobject =
     (case rename_fields fieldtype tempdct (obj idfobject) (objidd idfobject) of
        Inl e \<Rightarrow> Inl e
      | Inr vs \<Rightarrow> Inr (idfobject\<lparr>obj := vs\<rparr>))"

fun rename_keys ::
  "string \<Rightarrow> error + (string \<Rightarrow> fieldvalue option) \<Rightarrow> string list \<Rightarrow> idf \<Rightarrow> error + idf" where
  "rename_keys fieldtype tempdct [] d = Inr d"
| "rename_keys fieldtype tempdct (key # keys) d =
     (case map_of (idfobjects d) key of
        None \<Rightarrow> Inl KeyError
      | Some os \<Rightarrow>
          (case mapE (rename_object fieldtype tempdct) os of
             Inl e \<Rightarrow> Inl e
           | Inr os' \<Rightarrow>
               rename_keys fieldtype tempdct keys (d\<lparr>idfobjects := AList.update key os' (idfobjects d)\<rparr>)))"

definition renamenodes :: "idf \<Rightarrow> string \<Rightarrow> error + idf" where
  "renamenodes d fieldtype =
     (case gather_keys d (dtls d) [] of
        Inl e \<Rightarrow> Inl e
      | Inr renameds \<Rightarrow> rename_keys fieldtype (pydict renameds Map.empty) (dtls d) d)"

section \<open>String formatting\<close>

text \<open>
  \<^verbatim>\<open>"%s" % v\<close>: a string is inserted as it is, a list as its \<^verbatim>\<open>repr\<close> (quoting of the
  strings inside a list is rendered with single quotes, without escapes).
\<close>

fun py_join :: "string \<Rightarrow> string list \<Rightarrow> string" where
  "py_join sep [] = []"
| "py_join sep [x] = x"
| "py_join sep (x # y # ys) = x @ sep @ py_join sep (y # ys)"

fun py_repr :: "fieldvalue \<Rightarrow> string" where
  "py_repr (Str s) = CHR 0x27 # s @ [CHR 0x27]"
| "py_repr (Lst xs) = ''['' @ py_join '', '' (map py_repr xs) @ '']''"

definition py_str :: "fieldvalue \<Rightarrow> string" where
  "py_str v = (case v of Str s \<Rightarrow> s | Lst _ \<Rightarrow> py_repr v)"

text \<open>\<^verbatim>\<open>"%s" % (i, )\<close> for a non-negative integer: its decimal digits.\<close>

function py_str_nat :: "nat \<Rightarrow> string" where
  "py_str_nat n =
     (if n < 10 then [char_of (48 + n)]
      else py_str_nat (n div 10) @ [char_of (48 + n mod 10)])"
  by pat_completeness auto
termination
  by (relation "measure id") auto

declare py_str_nat.simps [simp del]

text \<open>\<^verbatim>\<open>s.upper()\<close> on ASCII letters, and \<^verbatim>\<open>s.replace(' ', '_')\<close>.\<close>

definition py_upper :: "string \<Rightarrow> string" where
  "py_upper s =
     map (\<lambda>c. if 97 \<le> (of_char c :: nat) \<and> (of_char c :: nat) \<le> 122
               then char_of ((of_char c :: nat) - 32) else c) s"

definition spaces_to_underscores :: "string \<Rightarrow> string" where
  "spaces_to_underscores s = map (\<lambda>c. if c = CHR '' '' then CHR ''_'' else c) s"

text \<open>\<^verbatim>\<open>s.split(sep)[0]\<close> for a non-empty separator: the text before its first occurrence.\<close>

fun py_split_head :: "string \<Rightarrow> string \<Rightarrow> string" where
  "py_split_head [] sep = []"
| "py_split_head (c # s) sep =
     (if py_startswith (c # s) sep then [] else c # py_split_head s sep)"

definition py_nth :: "'a list \<Rightarrow> nat \<Rightarrow> error + 'a" where
  "py_nth xs i = (if i < length xs then Inr (xs ! i) else Inl IndexError)"

section \<open>Chaining components\<close>

definition blankfield :: "fieldvalue \<Rightarrow> bool" where
  "blankfield fieldvalue = (case fieldvalue of Str s \<Rightarrow> strip_is_empty s | Lst _ \<Rightarrow> False)"

text \<open>
  \<^verbatim>\<open>trimfields\<close> is a closure of \<^verbatim>\<open>initinletoutlet\<close>: besides its arguments it reads
  \<^verbatim>\<open>idfobject\<close> and, for the diagnostic, the variable \<^verbatim>\<open>inletfields\<close> of the enclosing call.
\<close>

definition trimfields ::
  "epbunch \<Rightarrow> string list \<Rightarrow> string list \<Rightarrow> string option \<Rightarrow> error + string list" where
  "trimfields idfobject inletfields fieldnames thisnode =
     (if length fieldnames > 1 then
        (case thisnode of
           Some n \<Rightarrow> Inr (filter (\<lambda>field. py_startswith field n) fieldnames)
         | None \<Rightarrow>
             bindE (getfield idfobject ''key'') (\<lambda>k.
             bindE (getfield idfobject ''Name'') (\<lambda>nm.
             Inl (WhichLoopError (py_str k @ '' - '' @ py_str nm)
                    (map (\<lambda>field. py_split_head field ''Inlet_Node_Name'') inletfields)))))
      else Inr fieldnames)"

fun init_fields :: "idf \<Rightarrow> ref \<Rightarrow> bool \<Rightarrow> string list \<Rightarrow> error + idf" where
  "init_fields d r force [] = Inr d"
| "init_fields d r force (field # fieldnames) =
     bindE (getitem d r field) (\<lambda>v.
       if blankfield v \<or> force then
         bindE (getitem d r ''Name'') (\<lambda>nm.
         bindE (setitem d r field (Str (py_str nm @ ''_'' @ field))) (\<lambda>d'.
         init_fields d' r force fieldnames))
       else init_fields d r force fieldnames)"

definition initinletoutlet :: "idf \<Rightarrow> ref \<Rightarrow> string option \<Rightarrow> bool \<Rightarrow> error + idf" where
  "initinletoutlet d idfobject thisnode force =
     bindE (deref d idfobject) (\<lambda>b.
     bindE (trimfields b (getfieldnamesendswith b ''Inlet_Node_Name'')
              (getfieldnamesendswith b ''Inlet_Node_Name'') thisnode) (\<lambda>inletfields.
     bindE (init_fields d idfobject force inletfields) (\<lambda>d1.
     bindE (deref d1 idfobject) (\<lambda>b1.
     bindE (trimfields b1 inletfields
              (getfieldnamesendswith b1 ''Outlet_Node_Name'') thisnode) (\<lambda>outletfields.
     init_fields d1 idfobject force outletfields)))))"

text \<open>One round of the loop of \<^verbatim>\<open>connectcomponents\<close>, for the components at \<open>i\<close> and \<open>i + 1\<close>.\<close>

definition connect_pair ::
  "idf \<Rightarrow> string \<Rightarrow> ref \<times> string option \<Rightarrow> ref \<times> string option \<Rightarrow> error + idf" where
  "connect_pair d fluid this next =
     (case this of (thiscomp, thiscompnode) \<Rightarrow>
      case next of (nextcomp, nextcompnode) \<Rightarrow>
        bindE (initinletoutlet d thiscomp thiscompnode False) (\<lambda>d1.
        bindE (initinletoutlet d1 nextcomp nextcompnode False) (\<lambda>d2.
        bindE (getitem d2 thiscomp ''Name'') (\<lambda>thisname.
        bindE (getitem d2 nextcomp ''Name'') (\<lambda>nextname.
        bindE (deref d2 thiscomp) (\<lambda>tb.
        bindE (getnodefieldname tb ''Outlet_Node_Name'' (Some fluid) thiscompnode) (\<lambda>outletnodename.
        bindE (getfield tb outletnodename) (\<lambda>ov.
        bindE (setitem d2 thiscomp outletnodename
                 (Lst [ov, Str (py_str thisname @ ''_'' @ py_str nextname @ ''_node'')])) (\<lambda>d3.
        bindE (deref d3 nextcomp) (\<lambda>nb.
        bindE (getnodefieldname nb ''Inlet_Node_Name'' (Some fluid) None) (\<lambda>inletnodename.
        bindE (getfield nb inletnodename) (\<lambda>iv.
        setitem d3 nextcomp inletnodename
          (Lst [iv, Str (py_str thisname @ ''_'' @ py_str nextname @ ''_node'')])))))))))))))"

fun connect_pairs :: "idf \<Rightarrow> string \<Rightarrow> (ref \<times> string option) list \<Rightarrow> error + idf" where
  "connect_pairs d fluid (this # next # rest) =
     bindE (connect_pair d fluid this next) (\<lambda>d'. connect_pairs d' fluid (next # rest))"
| "connect_pairs d fluid [this] = Inr d"
| "connect_pairs d fluid [] = Inr d"

definition connectcomponents ::
  "idf \<Rightarrow> (ref \<times> string option) list \<Rightarrow> string option \<Rightarrow> error + idf" where
  "connectcomponents d components fluid =
     (let fluid1 = (case fluid of None \<Rightarrow> '''' | Some f \<Rightarrow> f) in
      case components of
        [(thiscomp, thiscompnode)] \<Rightarrow>
          bindE (initinletoutlet d thiscomp thiscompnode False) (\<lambda>d1.
          bindE (deref d1 thiscomp) (\<lambda>tb.
          bindE (getnodefieldname tb ''Outlet_Node_Name'' (Some fluid1) thiscompnode) (\<lambda>outletnodename.
          bindE (getfield tb outletnodename) (\<lambda>ov.
          setitem d1 thiscomp outletnodename (Lst [ov, ov])))))
      | _ \<Rightarrow> connect_pairs d fluid1 components)"

section \<open>Looking objects up and creating them\<close>

fun find_index_of :: "('a \<Rightarrow> bool) \<Rightarrow> 'a list \<Rightarrow> nat option" where
  "find_index_of P [] = None"
| "find_index_of P (x # xs) = (if P x then Some 0 else map_option Suc (find_index_of P xs))"

text \<open>
  Modelled from the spec: \<^verbatim>\<open>getObject(typeName, name)\<close>, the lookup by type and name
  (\<^verbatim>\<open>IDF.getobject\<close> of \<^verbatim>\<open>eppy.modeleditor\<close> is not among the sources). It gives the first
  object of the type whose \<^verbatim>\<open>Name\<close> field holds the name, or \<^verbatim>\<open>None\<close>.
\<close>

definition getobject :: "idf \<Rightarrow> string \<Rightarrow> fieldvalue \<Rightarrow> error + ref option" where
  "getobject d key name =
     (case map_of (idfobjects d) key of
        None \<Rightarrow> Inl KeyError
      | Some os \<Rightarrow>
          Inr (map_option (\<lambda>i. (key, i))
                 (find_index_of (\<lambda>b. getfield b ''Name'' = Inr name) os)))"

definition default_value :: "(string \<times> string list) list \<Rightarrow> fieldvalue" where
  "default_value itsidd = (case map_of itsidd ''default'' of Some (v # _) \<Rightarrow> Str v | _ \<Rightarrow> Str '''')"

text \<open>
  Modelled from the spec: \<^verbatim>\<open>createObject(typeName, name?)\<close> (\<^verbatim>\<open>IDF.newidfobject\<close> is not
  among the sources). The new object takes its field names and schema entries from the
  schema of its type, holds the type and the defaults of its fields, is named when a name is
  given, and is appended to the objects of its type. A type absent from the schema is an
  \<^verbatim>\<open>UnknownComponentTypeError\<close>.
\<close>

definition newidfobject :: "idf \<Rightarrow> string \<Rightarrow> fieldvalue option \<Rightarrow> error + idf \<times> ref" where
  "newidfobject d key aname =
     (case map_of (idd_info d) key of
        None \<Rightarrow> Inl UnknownComponentTypeError
      | Some (ls, idds) \<Rightarrow>
          (case map_of (idfobjects d) key of
             None \<Rightarrow> Inl KeyError
           | Some os \<Rightarrow>
               bindE (case aname of
                        None \<Rightarrow> Inr \<lparr>obj = Str key # map default_value (tl idds), objls = ls, objidd = idds\<rparr>
                      | Some n \<Rightarrow>
                          setfield \<lparr>obj = Str key # map default_value (tl idds), objls = ls, objidd = idds\<rparr>
                            ''Name'' n) (\<lambda>b.
               Inr (d\<lparr>idfobjects := AList.update key (os @ [b]) (idfobjects d)\<rparr>, (key, length os)))))"

definition getmakeidfobject :: "idf \<Rightarrow> string \<Rightarrow> fieldvalue \<Rightarrow> error + idf \<times> ref" where
  "getmakeidfobject d key name =
     bindE (getobject d key name) (\<lambda>idfobject.
       case idfobject of None \<Rightarrow> newidfobject d key (Some name) | Some r \<Rightarrow> Inr (d, r))"

section \<open>Writing a branch\<close>

definition extensible_index :: "epbunch \<Rightarrow> nat option" where
  "extensible_index b = find_index_of (\<lambda>itsidd. map_of itsidd ''begin-extensible'' \<noteq> None) (objidd b)"

text \<open>
  Modelled from the spec: \<^verbatim>\<open>clearExtensibleGroup(typeName, objectName)\<close> and
  \<^verbatim>\<open>growExtensibleGroup(object, fromIndex)\<close> (\<^verbatim>\<open>removeextensibles\<close>, \<^verbatim>\<open>getextensibleindex\<close>
  and \<^verbatim>\<open>extendlist\<close> of \<^verbatim>\<open>eppy.modeleditor\<close> are not among the sources). Clearing looks
  the object up by type and name and cuts its values off where the extensible group of the
  schema begins; growing pads the values with blanks up to that place, so that what is
  appended next lands in the extensible group.
\<close>

definition removeextensibles :: "idf \<Rightarrow> string \<Rightarrow> fieldvalue \<Rightarrow> error + idf \<times> ref option" where
  "removeextensibles d key objname =
     bindE (getobject d key objname) (\<lambda>theobject.
       case theobject of
         None \<Rightarrow> Inr (d, None)
       | Some r \<Rightarrow>
           bindE (deref d r) (\<lambda>b.
             case extensible_index b of
               None \<Rightarrow> Inr (d, Some r)
             | Some extensible_i \<Rightarrow> Inr (store d r (b\<lparr>obj := take extensible_i (obj b)\<rparr>), Some r)))"

definition getextensibleindex :: "idf \<Rightarrow> string \<Rightarrow> fieldvalue \<Rightarrow> error + nat option" where
  "getextensibleindex d key objname =
     bindE (getobject d key objname) (\<lambda>theobject.
       case theobject of
         None \<Rightarrow> Inr None
       | Some r \<Rightarrow> bindE (deref d r) (\<lambda>b. Inr (extensible_index b)))"

definition extendlist :: "fieldvalue list \<Rightarrow> nat option \<Rightarrow> fieldvalue list" where
  "extendlist lst i = (case i of None \<Rightarrow> lst | Some n \<Rightarrow> lst @ replicate (n - length lst) (Str ''''))"

text \<open>\<^verbatim>\<open>theobj.append(v)\<close> on the values of the branch.\<close>

definition obj_append :: "idf \<Rightarrow> ref \<Rightarrow> fieldvalue \<Rightarrow> error + idf" where
  "obj_append d r v = bindE (deref d r) (\<lambda>b. Inr (store d r (b\<lparr>obj := obj b @ [v]\<rparr>)))"

text \<open>The body of the loop of \<^verbatim>\<open>componentsintobranch\<close>: reads and appends in the order of the code.\<close>

definition append_component :: "idf \<Rightarrow> ref \<Rightarrow> string \<Rightarrow> ref \<times> string option \<Rightarrow> error + idf" where
  "append_component d thebranch fluid item =
     (case item of (thecomp, compnode) \<Rightarrow>
        bindE (getitem d thecomp ''key'') (\<lambda>k.
        bindE (obj_append d thebranch k) (\<lambda>d1.
        bindE (getitem d1 thecomp ''Name'') (\<lambda>nm.
        bindE (obj_append d1 thebranch nm) (\<lambda>d2.
        bindE (deref d2 thecomp) (\<lambda>c2.
        bindE (getnodefieldname c2 ''Inlet_Node_Name'' (Some fluid) compnode) (\<lambda>inletnodename.
        bindE (getfield c2 inletnodename) (\<lambda>iv.
        bindE (obj_append d2 thebranch iv) (\<lambda>d3.
        bindE (deref d3 thecomp) (\<lambda>c3.
        bindE (getnodefieldname c3 ''Outlet_Node_Name'' (Some fluid) compnode) (\<lambda>outletnodename.
        bindE (getfield c3 outletnodename) (\<lambda>ov.
        bindE (obj_append d3 thebranch ov) (\<lambda>d4.
        obj_append d4 thebranch (Str ''''))))))))))))))"

fun append_components ::
  "idf \<Rightarrow> ref \<Rightarrow> string \<Rightarrow> (ref \<times> string option) list \<Rightarrow> error + idf" where
  "append_components d thebranch fluid [] = Inr d"
| "append_components d thebranch fluid (item # rest) =
     bindE (append_component d thebranch fluid item) (\<lambda>d'.
       append_components d' thebranch fluid rest)"

definition componentsintobranch ::
  "idf \<Rightarrow> ref \<Rightarrow> (ref \<times> string option) list \<Rightarrow> string option \<Rightarrow> error + idf \<times> ref" where
  "componentsintobranch d branch listofcomponents fluid =
     (let fluid1 = (case fluid of None \<Rightarrow> '''' | Some f \<Rightarrow> f) in
      bindE (getitem d branch ''Name'') (\<lambda>thebranchname.
      bindE (removeextensibles d ''BRANCH'' thebranchname) (\<lambda>(d1, thebranch).
      bindE (getextensibleindex d1 ''BRANCH'' thebranchname) (\<lambda>e_index.
        case thebranch of
          None \<Rightarrow> Inl AttributeError
        | Some tb \<Rightarrow>
            bindE (deref d1 tb) (\<lambda>b.
            bindE (append_components (store d1 tb (b\<lparr>obj := extendlist (obj b) e_index\<rparr>))
                     tb fluid1 listofcomponents) (\<lambda>d2.
            Inr (d2, tb)))))))"

section \<open>Replacing a branch\<close>

text \<open>
  What \<^verbatim>\<open>replacebranch\<close> reads of its \<^verbatim>\<open>loop\<close> argument: the class's list
  \<^verbatim>\<open>loopfields\<close> and the loop object \<^verbatim>\<open>loop.loop\<close>.
\<close>

record loop_t =
  loopfields :: "string list"
  loop :: ref

text \<open>An item of \<^verbatim>\<open>listofcomponents\<close> is a component or a pair of a component and a port hint.\<close>

datatype compitem = Comp ref | CompNode ref "string option"

definition clean_listofcomponents :: "compitem list \<Rightarrow> (ref \<times> string option) list" where
  "clean_listofcomponents listofcomponents =
     map (\<lambda>item. case item of Comp r \<Rightarrow> (r, None) | CompNode r n \<Rightarrow> (r, n)) listofcomponents"

text \<open>
  The loop of \<^verbatim>\<open>getbranchcomponents\<close> over \<^verbatim>\<open>range(1, 100000)\<close>; it ends early at a blank
  type or at a field the schema does not have.
\<close>

function branch_complist ::
  "epbunch \<Rightarrow> nat \<Rightarrow> (string \<times> fieldvalue) list \<Rightarrow> error + (string \<times> fieldvalue) list" where
  "branch_complist branch i complist =
     (if 100000 \<le> i then Inr complist
      else
        (case getfield branch (''Component_'' @ py_str_nat i @ ''_Object_Type'') of
           Inl e \<Rightarrow> if e = BadEPFieldError then Inr complist else Inl e
         | Inr (Lst _) \<Rightarrow> Inl AttributeError
         | Inr (Str objtype) \<Rightarrow>
             if strip_is_empty objtype then Inr complist
             else
               (case getfield branch (''Component_'' @ py_str_nat i @ ''_Name'') of
                  Inl e \<Rightarrow> if e = BadEPFieldError then Inr complist else Inl e
                | Inr objname \<Rightarrow>
                    branch_complist branch (Suc i) (complist @ [(objtype, objname)]))))"
  by pat_completeness auto
termination
  by (relation "measure (\<lambda>(branch, i, complist). 100000 - i)") auto

declare branch_complist.simps [simp del]

definition getbranchcomponents :: "idf \<Rightarrow> ref \<Rightarrow> error + ref option list" where
  "getbranchcomponents d branch =
     bindE (deref d branch) (\<lambda>b.
     bindE (branch_complist b 1 []) (\<lambda>complist.
     mapE (\<lambda>(ot, on). getobject d ot on) complist))"

text \<open>
  \<^verbatim>\<open>comp[nodename] = [comp[nodename], loop.loop[flnames[k]]]\<close> after
  \<^verbatim>\<open>nodename = getnodefieldname(comp, suffix, fluid)\<close>; a component that
  \<^verbatim>\<open>getobject\<close> did not find is \<^verbatim>\<open>None\<close>.
\<close>

definition rebind_end ::
  "idf \<Rightarrow> loop_t \<Rightarrow> string list \<Rightarrow> string \<Rightarrow> ref option \<Rightarrow> string \<Rightarrow> nat \<Rightarrow> error + idf" where
  "rebind_end d lp flnames fluid thecomp suffix k =
     (case thecomp of
        None \<Rightarrow> Inl AttributeError
      | Some c \<Rightarrow>
          bindE (deref d c) (\<lambda>cb.
          bindE (getnodefieldname cb suffix (Some fluid) None) (\<lambda>nodename.
          bindE (getfield cb nodename) (\<lambda>old.
          bindE (py_nth flnames k) (\<lambda>loopfield.
          bindE (getitem d (loop lp) loopfield) (\<lambda>new.
          setitem d c nodename (Lst [old, new])))))))"

text \<open>
  One round of the scan of a connector list in \<^verbatim>\<open>replacebranch\<close>. The supply scan and the
  demand scan differ only in the connector list and in the two loop fields they bind
  (\<open>k_in\<close>, \<open>k_out\<close>). The variables \<^verbatim>\<open>cbranchname\<close> and \<^verbatim>\<open>isfirst\<close> keep their values from
  one round to the next and are unbound at first. The result \<open>None\<close> stands for
  \<^verbatim>\<open>break\<close>. The round is written in four parts: \<open>connector_names\<close> for the two tests of
  \<^verbatim>\<open>connector.key\<close>, \<open>connector_rebind\<close> for the test of \<^verbatim>\<open>cbranchname\<close> against the name of
  the branch and the rebinding of an end node, \<open>connector_at\<close> for the lookup of the
  connector of the round (\<open>None\<close> where the loop breaks), and \<open>connector_step\<close> for the
  whole.
\<close>

definition connector_names ::
  "idf \<Rightarrow> ref \<Rightarrow> fieldvalue option \<times> bool option \<Rightarrow> error + fieldvalue option \<times> bool option" where
  "connector_names d connector vars =
     bindE (getitem d connector ''key'') (\<lambda>ckey.
     bindE (if ckey = Str ''CONNECTOR:SPLITTER''
            then bindE (getitem d connector ''Inlet_Branch_Name'') (\<lambda>n. Inr (Some n, Some True))
            else Inr vars) (\<lambda>vars1.
     if ckey = Str ''CONNECTOR:MIXER''
     then bindE (getitem d connector ''Outlet_Branch_Name'') (\<lambda>n. Inr (Some n, Some False))
     else Inr vars1))"

definition connector_rebind ::
  "loop_t \<Rightarrow> string list \<Rightarrow> ref \<Rightarrow> string \<Rightarrow> nat \<Rightarrow> nat \<Rightarrow> idf
     \<Rightarrow> fieldvalue option \<times> bool option \<Rightarrow> error + idf" where
  "connector_rebind lp flnames thebranch fluid k_in k_out d vars =
     (case fst vars of
        None \<Rightarrow> Inl UnboundLocalError
      | Some cbranchname \<Rightarrow>
          bindE (getitem d thebranch ''Name'') (\<lambda>branchname.
            if cbranchname = branchname then
              bindE (getbranchcomponents d thebranch) (\<lambda>comps.
                case snd vars of
                  None \<Rightarrow> Inl UnboundLocalError
                | Some isfirst \<Rightarrow>
                    if isfirst then
                      bindE (py_nth comps 0) (\<lambda>c0.
                        rebind_end d lp flnames fluid c0 ''Inlet_Node_Name'' k_in)
                    else
                      bindE (py_nth comps (length comps - 1)) (\<lambda>c1.
                        rebind_end d lp flnames fluid c1 ''Outlet_Node_Name'' k_out))
            else Inr d))"

definition connector_at :: "idf \<Rightarrow> ref \<Rightarrow> nat \<Rightarrow> error + ref option" where
  "connector_at d cl i =
     (case getitem d cl (''Connector_'' @ py_str_nat i @ ''_Object_Type'') of
        Inl e \<Rightarrow> if e = BadEPFieldError then Inr None else Inl e
      | Inr (Lst _) \<Rightarrow> Inl AttributeError
      | Inr (Str ctype) \<Rightarrow>
          if strip_is_empty ctype then Inr None
          else
            bindE (getitem d cl (''Connector_'' @ py_str_nat i @ ''_Name'')) (\<lambda>cname.
            bindE (getobject d (py_upper ctype) cname) (\<lambda>connector.
              case connector of
                None \<Rightarrow> Inl AttributeError
              | Some c \<Rightarrow> Inr (Some c))))"

definition connector_step ::
  "loop_t \<Rightarrow> string list \<Rightarrow> ref option \<Rightarrow> ref \<Rightarrow> string \<Rightarrow> nat \<Rightarrow> nat \<Rightarrow> nat
     \<Rightarrow> idf \<times> fieldvalue option \<times> bool option
     \<Rightarrow> error + (idf \<times> fieldvalue option \<times> bool option) option" where
  "connector_step lp flnames conlist thebranch fluid k_in k_out i st =
     (case conlist of
        None \<Rightarrow> Inl TypeError
      | Some cl \<Rightarrow>
          bindE (connector_at (fst st) cl i) (\<lambda>connector.
            case connector of
              None \<Rightarrow> Inr None
            | Some c \<Rightarrow>
                bindE (connector_names (fst st) c (snd st)) (\<lambda>vars.
                bindE (connector_rebind lp flnames thebranch fluid k_in k_out (fst st) vars)
                  (\<lambda>d'. Inr (Some (d', vars))))))"

function scan_connectors ::
  "loop_t \<Rightarrow> string list \<Rightarrow> ref option \<Rightarrow> ref \<Rightarrow> string \<Rightarrow> nat \<Rightarrow> nat \<Rightarrow> nat
     \<Rightarrow> idf \<times> fieldvalue option \<times> bool option
     \<Rightarrow> error + idf \<times> fieldvalue option \<times> bool option" where
  "scan_connectors lp flnames conlist thebranch fluid k_in k_out i st =
     (if 100000 \<le> i then Inr st
      else
        (case connector_step lp flnames conlist thebranch fluid k_in k_out i st of
           Inl e \<Rightarrow> Inl e
         | Inr None \<Rightarrow> Inr st
         | Inr (Some st') \<Rightarrow>
             scan_connectors lp flnames conlist thebranch fluid k_in k_out (Suc i) st'))"
  by pat_completeness auto
termination
  by (relation "measure (\<lambda>(lp, flnames, conlist, thebranch, fluid, k_in, k_out, i, st). 100000 - i)") auto

declare scan_connectors.simps [simp del]

text \<open>
  The part of \<^verbatim>\<open>replacebranch\<close> between the two rename propagations: the scan of the supply
  connector list and, for water, of the demand connector list. The name
  \<^verbatim>\<open>supplyconlistname\<close> is bound only when the fluid is water or air; reading it unbound is an
  \<^verbatim>\<open>UnboundLocalError\<close>, a \<^verbatim>\<open>NameError\<close>.
\<close>

definition rebind_ends :: "idf \<Rightarrow> loop_t \<Rightarrow> ref \<Rightarrow> string \<Rightarrow> error + idf" where
  "rebind_ends d3 lp branch fluid1 =
     (let flnames = map spaces_to_underscores (loopfields lp) in
      bindE (if py_upper fluid1 = ''WATER''
             then bindE (py_nth flnames 3) (\<lambda>f. getitem d3 (loop lp) f)
             else if py_upper fluid1 = ''AIR''
             then bindE (py_nth flnames 1) (\<lambda>f. getitem d3 (loop lp) f)
             else Inl UnboundLocalError) (\<lambda>supplyconlistname.
      bindE (getobject d3 ''CONNECTORLIST'' supplyconlistname) (\<lambda>supplyconlist.
      bindE (scan_connectors lp flnames supplyconlist branch fluid1 0 1 1 (d3, None, None))
        (\<lambda>st4.
      if py_upper fluid1 = ''WATER''
      then
        bindE (py_nth flnames 7) (\<lambda>f.
        bindE (getitem (fst st4) (loop lp) f) (\<lambda>demandconlistname.
        bindE (getobject (fst st4) ''CONNECTORLIST'' demandconlistname) (\<lambda>demandconlist.
        bindE (scan_connectors lp flnames demandconlist branch fluid1 4 5 1 st4) (\<lambda>st5.
        Inr (fst st5)))))
      else Inr (fst st4)))))"

text \<open>The module-level \<^verbatim>\<open>replacebranch\<close>.\<close>

definition replacebranch ::
  "idf \<Rightarrow> loop_t \<Rightarrow> ref \<Rightarrow> compitem list \<Rightarrow> string option \<Rightarrow> error + idf \<times> ref" where
  "replacebranch d lp branch listofcomponents fluid =
     (let fluid1 = (case fluid of None \<Rightarrow> '''' | Some f \<Rightarrow> f);
          components = clean_listofcomponents listofcomponents
      in
      bindE (connectcomponents d components (Some fluid1)) (\<lambda>d1.
      bindE (componentsintobranch d1 branch components (Some fluid1)) (\<lambda>written.
      bindE (renamenodes (fst written) ''node'') (\<lambda>d3.
      bindE (rebind_ends d3 lp branch fluid1) (\<lambda>d5.
      bindE (renamenodes d5 ''node'') (\<lambda>d6.
      Inr (d6, branch)))))))"

text \<open>
  \<^verbatim>\<open>replacebranch1\<close>: a component is given as a tuple of its type, its name and, optionally,
  a port hint; a missing item of the tuple is \<^verbatim>\<open>None\<close>.
\<close>

definition clean_listofcomponents_tuples :: "string option list list \<Rightarrow> string option list list" where
  "clean_listofcomponents_tuples listofcomponents_tuples =
     map (\<lambda>item. item @ replicate (3 - length item) None) listofcomponents_tuples"

fun make_components ::
  "idf \<Rightarrow> string option list list \<Rightarrow> (ref \<times> string option) list
     \<Rightarrow> error + idf \<times> (ref \<times> string option) list" where
  "make_components d [] listofcomponents = Inr (d, listofcomponents)"
| "make_components d (item # rest) listofcomponents =
     (case item of
        [comp_type, comp_name, compnode] \<Rightarrow>
          (case comp_type of
             None \<Rightarrow> Inl AttributeError
           | Some t \<Rightarrow>
               bindE (case comp_name of
                        None \<Rightarrow> newidfobject d (py_upper t) None
                      | Some n \<Rightarrow> getmakeidfobject d (py_upper t) (Str n)) (\<lambda>(d', r).
               make_components d' rest (listofcomponents @ [(r, compnode)])))
      | _ \<Rightarrow> Inl ValueError)"

definition replacebranch1 ::
  "idf \<Rightarrow> loop_t \<Rightarrow> string \<Rightarrow> string option list list \<Rightarrow> string option \<Rightarrow> error + idf \<times> ref" where
  "replacebranch1 d lp branchname listofcomponents_tuples fluid =
     (let fluid1 = (case fluid of None \<Rightarrow> '''' | Some f \<Rightarrow> f) in
      bindE (getobject d ''BRANCH'' (Str branchname)) (\<lambda>branch.
      bindE (make_components d (clean_listofcomponents_tuples listofcomponents_tuples) [])
        (\<lambda>(d1, listofcomponents).
        case branch of
          None \<Rightarrow>
            bindE (connectcomponents d1 listofcomponents (Some fluid1)) (\<lambda>d2. Inl AttributeError)
        | Some b \<Rightarrow>
            replacebranch d1 lp b (map (\<lambda>(r, n). CompNode r n) listofcomponents) (Some fluid1))))"

section \<open>Notions used to state the properties\<close>

text \<open>The schema type of a field: the first item of the \<^verbatim>\<open>type\<close> entry of its schema.\<close>

definition field_has_type :: "(string \<times> string list) list \<Rightarrow> string \<Rightarrow> bool" where
  "field_has_type itsidd fieldtype =
     (case map_of itsidd ''type'' of Some (t # _) \<Rightarrow> t = fieldtype | _ \<Rightarrow> False)"

definition port_candidates :: "epbunch \<Rightarrow> string \<Rightarrow> string option \<Rightarrow> string list" where
  "port_candidates idfobject endswith startswith =
     filter (\<lambda>name. py_endswith name endswith \<and>
                     py_startswith name (case startswith of None \<Rightarrow> '''' | Some s \<Rightarrow> s))
       (objls idfobject)"

definition obj_frame :: "string \<Rightarrow> epbunch \<Rightarrow> epbunch \<Rightarrow> bool" where
  "obj_frame ft b b' =
     (objls b' = objls b \<and> objidd b' = objidd b \<and> length (obj b') = length (obj b) \<and>
      (\<forall>j < length (obj b). \<not> field_has_type (objidd b ! j) ft \<longrightarrow> obj b' ! j = obj b ! j))"

definition doc_frame :: "string \<Rightarrow> idf \<Rightarrow> idf \<Rightarrow> bool" where
  "doc_frame ft d d' = (\<forall>k. rel_option (list_all2 (obj_frame ft)) (map_of (idfobjects d) k) (map_of (idfobjects d') k))"


text \<open>
  The pending values of the document, as the first pass of \<^verbatim>\<open>renamenodes\<close> meets them: the
  contents of every list value of every object of the types of \<open>dtls\<close>.
\<close>

definition staged_of_object :: "epbunch \<Rightarrow> fieldvalue list list" where
  "staged_of_object b = concat (map (\<lambda>v. case v of Lst xs \<Rightarrow> [xs] | Str _ \<Rightarrow> []) (obj b))"

definition staged_values :: "idf \<Rightarrow> fieldvalue list list" where
  "staged_values d =
     concat (map (\<lambda>key. case map_of (idfobjects d) key of
                           None \<Rightarrow> []
                         | Some os \<Rightarrow> concat (map staged_of_object os)) (dtls d))"

text \<open>
  What \<^verbatim>\<open>componentsintobranch\<close> is to append for one component: its type, its name, the
  values of its resolved inlet and outlet fields and a blank branch control type.
\<close>

definition branch_row :: "idf \<Rightarrow> string \<Rightarrow> ref \<times> string option \<Rightarrow> error + fieldvalue list" where
  "branch_row d fluid item =
     bindE (deref d (fst item)) (\<lambda>c.
     bindE (getfield c ''key'') (\<lambda>k.
     bindE (getfield c ''Name'') (\<lambda>nm.
     bindE (getnodefieldname c ''Inlet_Node_Name'' (Some fluid) (snd item)) (\<lambda>inletnodename.
     bindE (getfield c inletnodename) (\<lambda>iv.
     bindE (getnodefieldname c ''Outlet_Node_Name'' (Some fluid) (snd item)) (\<lambda>outletnodename.
     bindE (getfield c outletnodename) (\<lambda>ov.
     Inr [k, nm, iv, ov, Str ''''])))))))"


text \<open>
  The connectors that a scan of the connector list \<open>cl\<close> visits from round \<open>i\<close> on, up to
  the round where the loop breaks (or fails), and the connectors of one side of the loop: those
  of the connector list that the loop names in its field \<open>flnames[k]\<close>.
\<close>

function listed_connectors :: "idf \<Rightarrow> ref \<Rightarrow> nat \<Rightarrow> ref list" where
  "listed_connectors d cl i =
     (if 100000 \<le> i then []
      else
        (case connector_at d cl i of
           Inl e \<Rightarrow> []
         | Inr None \<Rightarrow> []
         | Inr (Some c) \<Rightarrow> c # listed_connectors d cl (Suc i)))"
  by pat_completeness auto
termination
  by (relation "measure (\<lambda>(d, cl, i). 100000 - i)") auto

declare listed_connectors.simps [simp del]

definition side_connectors :: "idf \<Rightarrow> loop_t \<Rightarrow> nat \<Rightarrow> ref list" where
  "side_connectors d lp k =
     (case bindE (py_nth (map spaces_to_underscores (loopfields lp)) k) (getitem d (loop lp)) of
        Inl e \<Rightarrow> []
      | Inr conlistname \<Rightarrow>
          (case getobject d ''CONNECTORLIST'' conlistname of
             Inl e \<Rightarrow> []
           | Inr None \<Rightarrow> []
           | Inr (Some cl) \<Rightarrow> listed_connectors d cl 1))"

text \<open>
  A branch name is at the boundary of a connector when the connector is a splitter with that
  \<^verbatim>\<open>Inlet_Branch_Name\<close> or a mixer with that \<^verbatim>\<open>Outlet_Branch_Name\<close>; it is a boundary name
  of the loop when it is at the boundary of a connector of the supply side or, for water, of
  the demand side.
\<close>

definition boundary_connector :: "idf \<Rightarrow> ref \<Rightarrow> fieldvalue \<Rightarrow> bool" where
  "boundary_connector d c nm =
     ((getitem d c ''key'' = Inr (Str ''CONNECTOR:SPLITTER'') \<and>
       getitem d c ''Inlet_Branch_Name'' = Inr nm) \<or>
      (getitem d c ''key'' = Inr (Str ''CONNECTOR:MIXER'') \<and>
       getitem d c ''Outlet_Branch_Name'' = Inr nm))"

definition boundary_branch :: "idf \<Rightarrow> loop_t \<Rightarrow> string \<Rightarrow> fieldvalue \<Rightarrow> bool" where
  "boundary_branch d lp fluid nm =
     list_ex (\<lambda>c. boundary_connector d c nm)
       (if py_upper fluid = ''WATER'' then side_connectors d lp 3 @ side_connectors d lp 7
        else side_connectors d lp 1)"

text \<open>
  The old identifiers of the pending values: what \<^verbatim>\<open>dict(renameds)\<close> takes as its keys.
\<close>

definition old_identifiers :: "idf \<Rightarrow> fieldvalue list" where
  "old_identifiers d = concat (map (take 1) (staged_values d))"

text \<open>An object keeps the plain value \<open>v\<close> wherever it holds it.\<close>

definition keeps_plain :: "string \<Rightarrow> epbunch \<Rightarrow> epbunch \<Rightarrow> bool" where
  "keeps_plain v b b' =
     (objls b' = objls b \<and> length (obj b') = length (obj b) \<and>
      (\<forall>j < length (obj b). obj b ! j = Str v \<longrightarrow> obj b' ! j = Str v))"


section \<open>Example documents\<close>

definition ty :: "string \<Rightarrow> (string \<times> string list) list" where
  "ty t = [(''type'', [t])]"

text \<open>
  One object with a pending pair and the plain value \<^verbatim>\<open>x\<close> in fields that are not of type
  \<^verbatim>\<open>node\<close>, and the plain value \<^verbatim>\<open>x\<close> in a field of type \<^verbatim>\<open>node\<close>.
\<close>

definition rename_doc :: idf where
  "rename_doc =
     \<lparr>dtls = [''THING''],
      idfobjects = [(''THING'',
        [\<lparr>obj = [Str ''THING'', Lst [Str ''x'', Str ''y''], Str ''x'', Str ''x''],
          objls = [''key'', ''Name'', ''Note'', ''Inlet_Node_Name''],
          objidd = [[], ty ''alpha'', ty ''alpha'', ty ''node'']\<rparr>])],
      idd_info = []\<rparr>"

text \<open>A coil with an air inlet declared before its water inlet.\<close>

definition coil :: epbunch where
  "coil =
     \<lparr>obj = [Str ''COIL'', Str ''c1''],
      objls = [''key'', ''Name'', ''Air_Inlet_Node_Name'', ''Water_Inlet_Node_Name''],
      objidd = [[], ty ''alpha'', ty ''node'', ty ''node'']\<rparr>"

text \<open>
  A plant loop \<^verbatim>\<open>p\<close> as \<^verbatim>\<open>makeplantloop\<close> leaves it, cut down to two supply branches: the
  branch \<^verbatim>\<open>sb0\<close> is the inlet branch of the supply splitter, \<^verbatim>\<open>sb1\<close> is a branch between
  splitter and mixer. The pipes \<^verbatim>\<open>A\<close> and \<^verbatim>\<open>B\<close> are new components with blank nodes.
\<close>

definition pipe_ls :: "string list" where
  "pipe_ls = [''key'', ''Name'', ''Inlet_Node_Name'', ''Outlet_Node_Name'']"

definition pipe_idd :: "(string \<times> string list) list list" where
  "pipe_idd = [[], ty ''alpha'', ty ''node'', ty ''node'']"

definition mkpipe :: "string \<Rightarrow> string \<Rightarrow> string \<Rightarrow> epbunch" where
  "mkpipe name inlet outlet =
     \<lparr>obj = [Str ''PIPE:ADIABATIC'', Str name, Str inlet, Str outlet],
      objls = pipe_ls, objidd = pipe_idd\<rparr>"

definition branch_ls :: "string list" where
  "branch_ls =
     [''key'', ''Name'', ''Pressure_Drop_Curve_Name'',
      ''Component_1_Object_Type'', ''Component_1_Name'', ''Component_1_Inlet_Node_Name'',
      ''Component_1_Outlet_Node_Name'', ''Component_1_Branch_Control_Type'',
      ''Component_2_Object_Type'', ''Component_2_Name'', ''Component_2_Inlet_Node_Name'',
      ''Component_2_Outlet_Node_Name'', ''Component_2_Branch_Control_Type'']"

definition branch_idd :: "(string \<times> string list) list list" where
  "branch_idd =
     [[], ty ''alpha'', ty ''object-list'',
      (''begin-extensible'', []) # ty ''alpha'', ty ''object-list'', ty ''node'', ty ''node'',
      ty ''choice'',
      ty ''alpha'', ty ''object-list'', ty ''node'', ty ''node'', ty ''choice'']"

definition mkbranch :: "string \<Rightarrow> string \<Rightarrow> string \<Rightarrow> string \<Rightarrow> epbunch" where
  "mkbranch name pipe inlet outlet =
     \<lparr>obj = [Str ''BRANCH'', Str name, Str '''', Str ''Pipe:Adiabatic'', Str pipe, Str inlet,
             Str outlet, Str ''Bypass''],
      objls = branch_ls, objidd = branch_idd\<rparr>"

definition loop_ls :: "string list" where
  "loop_ls =
     [''key'', ''Name'', ''Plant_Side_Inlet_Node_Name'', ''Plant_Side_Outlet_Node_Name'',
      ''Plant_Side_Branch_List_Name'', ''Plant_Side_Connector_List_Name'',
      ''Demand_Side_Inlet_Node_Name'', ''Demand_Side_Outlet_Node_Name'',
      ''Demand_Side_Branch_List_Name'', ''Demand_Side_Connector_List_Name'']"

definition loop_idd :: "(string \<times> string list) list list" where
  "loop_idd =
     [[], ty ''alpha'', ty ''node'', ty ''node'', ty ''object-list'', ty ''object-list'',
      ty ''node'', ty ''node'', ty ''object-list'', ty ''object-list'']"

definition connlist_ls :: "string list" where
  "connlist_ls =
     [''key'', ''Name'', ''Connector_1_Object_Type'', ''Connector_1_Name'',
      ''Connector_2_Object_Type'', ''Connector_2_Name'']"

definition connlist_idd :: "(string \<times> string list) list list" where
  "connlist_idd = [[], ty ''alpha'', ty ''choice'', ty ''object-list'', ty ''choice'', ty ''object-list'']"

definition mkconnlist :: "string \<Rightarrow> string \<Rightarrow> string \<Rightarrow> epbunch" where
  "mkconnlist name splitter mixer =
     \<lparr>obj = [Str ''CONNECTORLIST'', Str name, Str ''Connector:Splitter'', Str splitter,
             Str ''Connector:Mixer'', Str mixer],
      objls = connlist_ls, objidd = connlist_idd\<rparr>"

definition connector_idd :: "(string \<times> string list) list list" where
  "connector_idd = [[], ty ''alpha'', ty ''object-list'', ty ''object-list'', ty ''object-list'']"

definition mksplitter :: "string \<Rightarrow> string \<Rightarrow> string \<Rightarrow> epbunch" where
  "mksplitter name inlet outlet =
     \<lparr>obj = [Str ''CONNECTOR:SPLITTER'', Str name, Str inlet, Str outlet],
      objls = [''key'', ''Name'', ''Inlet_Branch_Name'', ''Outlet_Branch_1_Name'',
               ''Outlet_Branch_2_Name''],
      objidd = connector_idd\<rparr>"

definition mkmixer :: "string \<Rightarrow> string \<Rightarrow> string \<Rightarrow> epbunch" where
  "mkmixer name outlet inlet =
     \<lparr>obj = [Str ''CONNECTOR:MIXER'', Str name, Str outlet, Str inlet],
      objls = [''key'', ''Name'', ''Outlet_Branch_Name'', ''Inlet_Branch_1_Name'',
               ''Inlet_Branch_2_Name''],
      objidd = connector_idd\<rparr>"

definition plant_doc :: idf where
  "plant_doc =
     \<lparr>dtls = [''PLANTLOOP'', ''BRANCH'', ''CONNECTORLIST'', ''CONNECTOR:SPLITTER'',
              ''CONNECTOR:MIXER'', ''PIPE:ADIABATIC''],
      idfobjects =
        [(''PLANTLOOP'',
           [\<lparr>obj = [Str ''PLANTLOOP'', Str ''p'', Str ''p Supply Inlet'', Str ''p Supply Outlet'',
                    Str ''p Supply Branchs'', Str ''p Supply Connectors'', Str ''p Demand Inlet'',
                    Str ''p Demand Outlet'', Str ''p Demand Branchs'', Str ''p Demand Connectors''],
             objls = loop_ls, objidd = loop_idd\<rparr>]),
         (''BRANCH'',
           [mkbranch ''sb0'' ''sb0_pipe'' ''p Supply Inlet'' ''sb0_pipe_outlet'',
            mkbranch ''sb1'' ''sb1_pipe'' ''sb1_pipe_inlet'' ''sb1_pipe_outlet'']),
         (''CONNECTORLIST'',
           [mkconnlist ''p Supply Connectors'' ''p_supply_splitter'' ''p_supply_mixer'',
            mkconnlist ''p Demand Connectors'' ''p_demand_splitter'' ''p_demand_mixer'']),
         (''CONNECTOR:SPLITTER'',
           [mksplitter ''p_supply_splitter'' ''sb0'' ''sb1'',
            mksplitter ''p_demand_splitter'' ''db0'' ''db1'']),
         (''CONNECTOR:MIXER'',
           [mkmixer ''p_supply_mixer'' ''sb2'' ''sb1'',
            mkmixer ''p_demand_mixer'' ''db2'' ''db1'']),
         (''PIPE:ADIABATIC'',
           [mkpipe ''sb0_pipe'' ''p Supply Inlet'' ''sb0_pipe_outlet'',
            mkpipe ''sb1_pipe'' ''sb1_pipe_inlet'' ''sb1_pipe_outlet'',
            mkpipe ''A'' '''' '''',
            mkpipe ''B'' '''' ''''])],
      idd_info = []\<rparr>"

definition plant_loop :: loop_t where
  "plant_loop =
     \<lparr>loopfields =
        [''Plant Side Inlet Node Name'', ''Plant Side Outlet Node Name'',
         ''Plant Side Branch List Name'', ''Plant Side Connector List Name'',
         ''Demand Side Inlet Node Name'', ''Demand Side Outlet Node Name'',
         ''Demand Side Branch List Name'', ''Demand Side Connector List Name''],
      loop = (''PLANTLOOP'', 0)\<rparr>"

text \<open>
  The components \<^verbatim>\<open>[A, B]\<close> given without port hints, and the plant loop document after each
  step of replacing the middle branch \<^verbatim>\<open>sb1\<close> by them: chained, written, renamed.
\<close>

definition pipes_AB :: "compitem list" where
  "pipes_AB = [Comp (''PIPE:ADIABATIC'', 2), Comp (''PIPE:ADIABATIC'', 3)]"

definition plant_doc_chained :: idf where
  "plant_doc_chained =
     plant_doc\<lparr>idfobjects := AList.update ''PIPE:ADIABATIC''
       [mkpipe ''sb0_pipe'' ''p Supply Inlet'' ''sb0_pipe_outlet'',
        mkpipe ''sb1_pipe'' ''sb1_pipe_inlet'' ''sb1_pipe_outlet'',
        \<lparr>obj = [Str ''PIPE:ADIABATIC'', Str ''A'', Str ''A_Inlet_Node_Name'',
                 Lst [Str ''A_Outlet_Node_Name'', Str ''A_B_node'']],
          objls = pipe_ls, objidd = pipe_idd\<rparr>,
        \<lparr>obj = [Str ''PIPE:ADIABATIC'', Str ''B'',
                 Lst [Str ''B_Inlet_Node_Name'', Str ''A_B_node''], Str ''B_Outlet_Node_Name''],
          objls = pipe_ls, objidd = pipe_idd\<rparr>]
       (idfobjects plant_doc)\<rparr>"

definition plant_doc_written :: idf where
  "plant_doc_written =
     plant_doc_chained\<lparr>idfobjects := AList.update ''BRANCH''
       [mkbranch ''sb0'' ''sb0_pipe'' ''p Supply Inlet'' ''sb0_pipe_outlet'',
        \<lparr>obj = [Str ''BRANCH'', Str ''sb1'', Str '''',
                 Str ''PIPE:ADIABATIC'', Str ''A'', Str ''A_Inlet_Node_Name'',
                 Lst [Str ''A_Outlet_Node_Name'', Str ''A_B_node''], Str '''',
                 Str ''PIPE:ADIABATIC'', Str ''B'',
                 Lst [Str ''B_Inlet_Node_Name'', Str ''A_B_node''], Str ''B_Outlet_Node_Name'',
                 Str ''''],
          objls = branch_ls, objidd = branch_idd\<rparr>]
       (idfobjects plant_doc_chained)\<rparr>"

definition plant_doc_renamed :: idf where
  "plant_doc_renamed =
     plant_doc\<lparr>idfobjects :=
       AList.update ''BRANCH''
         [mkbranch ''sb0'' ''sb0_pipe'' ''p Supply Inlet'' ''sb0_pipe_outlet'',
          \<lparr>obj = [Str ''BRANCH'', Str ''sb1'', Str '''',
                   Str ''PIPE:ADIABATIC'', Str ''A'', Str ''A_Inlet_Node_Name'', Str ''A_B_node'',
                   Str '''',
                   Str ''PIPE:ADIABATIC'', Str ''B'', Str ''A_B_node'', Str ''B_Outlet_Node_Name'',
                   Str ''''],
            objls = branch_ls, objidd = branch_idd\<rparr>]
         (AList.update ''PIPE:ADIABATIC''
            [mkpipe ''sb0_pipe'' ''p Supply Inlet'' ''sb0_pipe_outlet'',
             mkpipe ''sb1_pipe'' ''sb1_pipe_inlet'' ''sb1_pipe_outlet'',
             mkpipe ''A'' ''A_Inlet_Node_Name'' ''A_B_node'',
             mkpipe ''B'' ''A_B_node'' ''B_Outlet_Node_Name'']
            (idfobjects plant_doc))\<rparr>"

text \<open>
  Components with several ports: a chiller with a chilled-water side and a condenser side,
  and a heat exchanger with one inlet and two outlets. The pipe \<^verbatim>\<open>P\<close> is to be chained
  in front of the chiller.
\<close>

definition chiller_ls :: "string list" where
  "chiller_ls =
     [''key'', ''Name'', ''Chilled_Water_Inlet_Node_Name'', ''Chilled_Water_Outlet_Node_Name'',
      ''Condenser_Inlet_Node_Name'', ''Condenser_Outlet_Node_Name'']"

definition chiller_idd :: "(string \<times> string list) list list" where
  "chiller_idd = [[], ty ''alpha'', ty ''node'', ty ''node'', ty ''node'', ty ''node'']"

definition hx_ls :: "string list" where
  "hx_ls =
     [''key'', ''Name'', ''Inlet_Node_Name'', ''Hot_Outlet_Node_Name'', ''Cold_Outlet_Node_Name'']"

definition chiller :: epbunch where
  "chiller = \<lparr>obj = [Str ''CHILLER:ELECTRIC'', Str ''Ch''], objls = chiller_ls, objidd = chiller_idd\<rparr>"

definition hx :: epbunch where
  "hx = \<lparr>obj = [Str ''HX'', Str ''h1''], objls = hx_ls,
          objidd = [[], ty ''alpha'', ty ''node'', ty ''node'', ty ''node'']\<rparr>"

definition ports_doc :: idf where
  "ports_doc =
     \<lparr>dtls = [''PIPE:ADIABATIC'', ''CHILLER:ELECTRIC'', ''HX''],
      idfobjects =
        [(''PIPE:ADIABATIC'', [mkpipe ''P'' '''' '''']),
         (''CHILLER:ELECTRIC'', [chiller]),
         (''HX'', [hx])],
      idd_info = []\<rparr>"

text \<open>The pipe \<^verbatim>\<open>P\<close> chained in front of the condenser side of the chiller.\<close>

definition pipe_then_condenser :: "(ref \<times> string option) list" where
  "pipe_then_condenser =
     [((''PIPE:ADIABATIC'', 0), None), ((''CHILLER:ELECTRIC'', 0), Some ''Condenser_'')]"

definition ports_doc_chained :: idf where
  "ports_doc_chained =
     \<lparr>dtls = [''PIPE:ADIABATIC'', ''CHILLER:ELECTRIC'', ''HX''],
      idfobjects =
        [(''PIPE:ADIABATIC'',
           [\<lparr>obj = [Str ''PIPE:ADIABATIC'', Str ''P'', Str ''P_Inlet_Node_Name'',
                    Lst [Str ''P_Outlet_Node_Name'', Str ''P_Ch_node'']],
             objls = pipe_ls, objidd = pipe_idd\<rparr>]),
         (''CHILLER:ELECTRIC'',
           [\<lparr>obj = [Str ''CHILLER:ELECTRIC'', Str ''Ch'', Lst [Str '''', Str ''P_Ch_node''],
                    Str '''', Str ''Ch_Condenser_Inlet_Node_Name'',
                    Str ''Ch_Condenser_Outlet_Node_Name''],
             objls = chiller_ls, objidd = chiller_idd\<rparr>]),
         (''HX'', [hx])],
      idd_info = []\<rparr>"

text \<open>
  The middle branch \<^verbatim>\<open>sb1\<close> replaced by \<^verbatim>\<open>[A, sb0_pipe]\<close>, where \<^verbatim>\<open>sb0_pipe\<close> is the pipe of
  the first supply branch, whose inlet is the loop's supply inlet node: the document after
  chaining, after writing and after rename propagation.
\<close>

definition pipes_A_sb0 :: "compitem list" where
  "pipes_A_sb0 = [Comp (''PIPE:ADIABATIC'', 2), Comp (''PIPE:ADIABATIC'', 0)]"

definition reuse_doc_chained :: idf where
  "reuse_doc_chained =
     plant_doc\<lparr>idfobjects := AList.update ''PIPE:ADIABATIC''
       [\<lparr>obj = [Str ''PIPE:ADIABATIC'', Str ''sb0_pipe'',
                 Lst [Str ''p Supply Inlet'', Str ''A_sb0_pipe_node''], Str ''sb0_pipe_outlet''],
          objls = pipe_ls, objidd = pipe_idd\<rparr>,
        mkpipe ''sb1_pipe'' ''sb1_pipe_inlet'' ''sb1_pipe_outlet'',
        \<lparr>obj = [Str ''PIPE:ADIABATIC'', Str ''A'', Str ''A_Inlet_Node_Name'',
                 Lst [Str ''A_Outlet_Node_Name'', Str ''A_sb0_pipe_node'']],
          objls = pipe_ls, objidd = pipe_idd\<rparr>,
        mkpipe ''B'' '''' '''']
       (idfobjects plant_doc)\<rparr>"

definition reuse_doc_written :: idf where
  "reuse_doc_written =
     reuse_doc_chained\<lparr>idfobjects := AList.update ''BRANCH''
       [mkbranch ''sb0'' ''sb0_pipe'' ''p Supply Inlet'' ''sb0_pipe_outlet'',
        \<lparr>obj = [Str ''BRANCH'', Str ''sb1'', Str '''',
                 Str ''PIPE:ADIABATIC'', Str ''A'', Str ''A_Inlet_Node_Name'',
                 Lst [Str ''A_Outlet_Node_Name'', Str ''A_sb0_pipe_node''], Str '''',
                 Str ''PIPE:ADIABATIC'', Str ''sb0_pipe'',
                 Lst [Str ''p Supply Inlet'', Str ''A_sb0_pipe_node''], Str ''sb0_pipe_outlet'',
                 Str ''''],
          objls = branch_ls, objidd = branch_idd\<rparr>]
       (idfobjects reuse_doc_chained)\<rparr>"

definition reuse_doc_renamed :: idf where
  "reuse_doc_renamed =
     plant_doc\<lparr>idfobjects :=
       AList.update ''PLANTLOOP''
         [\<lparr>obj = [Str ''PLANTLOOP'', Str ''p'', Str ''A_sb0_pipe_node'', Str ''p Supply Outlet'',
                  Str ''p Supply Branchs'', Str ''p Supply Connectors'', Str ''p Demand Inlet'',
                  Str ''p Demand Outlet'', Str ''p Demand Branchs'', Str ''p Demand Connectors''],
            objls = loop_ls, objidd = loop_idd\<rparr>]
       (AList.update ''BRANCH''
         [mkbranch ''sb0'' ''sb0_pipe'' ''A_sb0_pipe_node'' ''sb0_pipe_outlet'',
          \<lparr>obj = [Str ''BRANCH'', Str ''sb1'', Str '''',
                   Str ''PIPE:ADIABATIC'', Str ''A'', Str ''A_Inlet_Node_Name'',
                   Str ''A_sb0_pipe_node'', Str '''',
                   Str ''PIPE:ADIABATIC'', Str ''sb0_pipe'', Str ''A_sb0_pipe_node'',
                   Str ''sb0_pipe_outlet'', Str ''''],
            objls = branch_ls, objidd = branch_idd\<rparr>]
       (AList.update ''PIPE:ADIABATIC''
          [mkpipe ''sb0_pipe'' ''A_sb0_pipe_node'' ''sb0_pipe_outlet'',
           mkpipe ''sb1_pipe'' ''sb1_pipe_inlet'' ''sb1_pipe_outlet'',
           mkpipe ''A'' ''A_Inlet_Node_Name'' ''A_sb0_pipe_node'',
           mkpipe ''B'' '''' '''']
          (idfobjects plant_doc)))\<rparr>"





section \<open>Port resolution: first match in schema order\<close>

lemma find_filter_hd:
  "List.find P xs = (case filter P xs of [] \<Rightarrow> None | x # _ \<Rightarrow> Some x)"
  by (induction xs) auto

text \<open>
  Claim C7, as amended. With a fluid hint, \<^verbatim>\<open>getnodefieldname\<close> returns the first field, in
  the schema's declared order, among the candidates (the fields that end with the suffix and
  start with the port hint) whose name contains the hint as it is given; when no candidate
  contains it, the first candidate; and with no candidate at all it fails with
  \<^verbatim>\<open>IndexError\<close>. The hint is compared as a plain substring: nothing maps \<^verbatim>\<open>Steam\<close> to
  \<^verbatim>\<open>Water\<close>.
\<close>

theorem getnodefieldname_first_match:
  "getnodefieldname idfobject endswith (Some fluid) startswith =
     (case List.find (\<lambda>nd. py_contains nd fluid) (port_candidates idfobject endswith startswith) of
        Some nd \<Rightarrow> Inr nd
      | None \<Rightarrow>
          (case port_candidates idfobject endswith startswith of
             [] \<Rightarrow> Inl IndexError
           | nd # _ \<Rightarrow> Inr nd))"
proof -
  let ?sw = "\<lambda>name. py_startswith name (case startswith of None \<Rightarrow> [] | Some s \<Rightarrow> s)"
  let ?cands = "port_candidates idfobject endswith startswith"
  have n: "filter ?sw (getfieldnamesendswith idfobject endswith) = ?cands"
    by (simp add: getfieldnamesendswith_def port_candidates_def)
  have f: "filter ?sw (filter (\<lambda>nd. py_contains nd fluid) ?cands) =
           filter (\<lambda>nd. py_contains nd fluid) ?cands"
    by (rule filter_True) (simp add: port_candidates_def)
  show ?thesis
    unfolding getnodefieldname_def Let_def option.case n f find_filter_hd
    by (cases "filter (\<lambda>nd. py_contains nd fluid) ?cands") simp_all
qed

text \<open>
  Claim C7 as stated fails: were \<^verbatim>\<open>Steam\<close> treated as \<^verbatim>\<open>Water\<close>, both hints would select
  the water inlet of the coil. The hint \<^verbatim>\<open>Steam\<close> matches no field and falls back to the
  first candidate, the air inlet.
\<close>

theorem getnodefieldname_steam_counterexample:
  "getnodefieldname coil ''Inlet_Node_Name'' (Some ''Steam'') None = Inr ''Air_Inlet_Node_Name'' \<and>
   getnodefieldname coil ''Inlet_Node_Name'' (Some ''Water'') None = Inr ''Water_Inlet_Node_Name''"
  by (simp add: getnodefieldname_def getfieldnamesendswith_def coil_def py_endswith_def
        py_startswith_def)

section \<open>Rename propagation: what it leaves alone\<close>

lemma rename_field_other:
  "rename_field ft td itsidd v = Inr v' \<Longrightarrow> \<not> field_has_type itsidd ft \<Longrightarrow> v' = v"
  by (auto simp: rename_field_def field_has_type_def split: option.splits list.splits if_splits)

lemma rename_fields_frame:
  "rename_fields ft td vs idds = Inr vs' \<Longrightarrow>
     length vs' = length vs \<and> length vs \<le> length idds \<and>
     (\<forall>j < length vs. \<not> field_has_type (idds ! j) ft \<longrightarrow> vs' ! j = vs ! j)"
proof (induction ft td vs idds arbitrary: vs' rule: rename_fields.induct)
  case (1 ft td idds)
  then show ?case by simp
next
  case (2 ft td v vs)
  then show ?case by simp
next
  case (3 ft td v vs itsidd idds)
  from "3.prems" obtain w ws where
    w: "rename_field ft td itsidd v = Inr w" and
    ws: "rename_fields ft td vs idds = Inr ws" and
    vs': "vs' = w # ws"
    by (auto split: sum.splits)
  from "3.IH"[OF w ws] have ih:
    "length ws = length vs" "length vs \<le> length idds"
    "\<forall>j < length vs. \<not> field_has_type (idds ! j) ft \<longrightarrow> ws ! j = vs ! j"
    by auto
  show ?case
  proof (intro conjI allI impI)
    fix j assume j: "j < length (v # vs)" and nt: "\<not> field_has_type ((itsidd # idds) ! j) ft"
    show "vs' ! j = (v # vs) ! j"
    proof (cases j)
      case 0
      with nt rename_field_other[OF w] vs' show ?thesis by simp
    next
      case (Suc j')
      with j nt ih(3) vs' show ?thesis by simp
    qed
  qed (use ih vs' in auto)
qed

lemma rename_object_frame:
  "rename_object ft td b = Inr b' \<Longrightarrow> obj_frame ft b b'"
  by (auto simp: rename_object_def obj_frame_def split: sum.splits dest!: rename_fields_frame)

lemma mapE_list_all2:
  "mapE f xs = Inr ys \<Longrightarrow> (\<And>x y. x \<in> set xs \<Longrightarrow> f x = Inr y \<Longrightarrow> R x y) \<Longrightarrow> list_all2 R xs ys"
  by (induction xs arbitrary: ys) (auto split: sum.splits)

lemma obj_frame_refl: "obj_frame ft b b"
  by (simp add: obj_frame_def)

lemma obj_frame_trans: "obj_frame ft a b \<Longrightarrow> obj_frame ft b c \<Longrightarrow> obj_frame ft a c"
  by (simp add: obj_frame_def)

lemma doc_frame_refl: "doc_frame ft d d"
  by (auto simp: doc_frame_def option.rel_refl list.rel_refl obj_frame_refl)

lemma list_all2_obj_frame_trans:
  "list_all2 (obj_frame ft) xs ys \<Longrightarrow> list_all2 (obj_frame ft) ys zs \<Longrightarrow> list_all2 (obj_frame ft) xs zs"
  by (rule list_all2_trans[where ?P1.0 = "obj_frame ft" and ?P2.0 = "obj_frame ft"])
     (auto intro: obj_frame_trans)

lemma doc_frame_trans: "doc_frame ft a b \<Longrightarrow> doc_frame ft b c \<Longrightarrow> doc_frame ft a c"
  unfolding doc_frame_def
proof
  fix k
  assume ab: "\<forall>k. rel_option (list_all2 (obj_frame ft)) (map_of (idfobjects a) k) (map_of (idfobjects b) k)"
     and bc: "\<forall>k. rel_option (list_all2 (obj_frame ft)) (map_of (idfobjects b) k) (map_of (idfobjects c) k)"
  from ab have 1: "rel_option (list_all2 (obj_frame ft)) (map_of (idfobjects a) k) (map_of (idfobjects b) k)" by simp
  from bc have 2: "rel_option (list_all2 (obj_frame ft)) (map_of (idfobjects b) k) (map_of (idfobjects c) k)" by simp
  from 1 2 show "rel_option (list_all2 (obj_frame ft)) (map_of (idfobjects a) k) (map_of (idfobjects c) k)"
    by (cases "map_of (idfobjects a) k"; cases "map_of (idfobjects b) k"; cases "map_of (idfobjects c) k")
       (auto intro: list_all2_obj_frame_trans)
qed

lemma rename_keys_frame:
  "rename_keys ft td keys d = Inr d' \<Longrightarrow> doc_frame ft d d'"
proof (induction ft td keys d arbitrary: d' rule: rename_keys.induct)
  case (1 ft td d)
  then show ?case by (simp add: doc_frame_refl)
next
  case (2 ft td key keys d)
  from "2.prems" obtain os os' where
    os: "map_of (idfobjects d) key = Some os" and
    m: "mapE (rename_object ft td) os = Inr os'" and
    rest: "rename_keys ft td keys (d\<lparr>idfobjects := AList.update key os' (idfobjects d)\<rparr>) = Inr d'"
    by (auto split: option.splits sum.splits)
  have "list_all2 (obj_frame ft) os os'"
    by (rule mapE_list_all2[OF m]) (rule rename_object_frame)
  with os have step: "doc_frame ft d (d\<lparr>idfobjects := AList.update key os' (idfobjects d)\<rparr>)"
    by (auto simp: doc_frame_def update_conv' option.rel_refl list.rel_refl obj_frame_refl)
  from "2.IH"[OF os m rest] step show ?case
    by (blast intro: doc_frame_trans)
qed

text \<open>
  Claim C10. A successful \<^verbatim>\<open>renamenodes(idf, fieldtype)\<close> changes no field whose schema type
  is not \<open>fieldtype\<close>: whatever such a field holds, a pending pair or a plain value that is
  some pair's old identifier, it holds afterwards. The objects of every type keep their
  number, their schema and the number of their values.
\<close>

theorem renamenodes_frame:
  assumes run: "renamenodes d fieldtype = Inr d'"
    and os: "map_of (idfobjects d) key = Some os"
    and i: "i < length os"
    and j: "j < length (obj (os ! i))"
    and other: "\<not> field_has_type (objidd (os ! i) ! j) fieldtype"
  shows "\<exists>os'. map_of (idfobjects d') key = Some os' \<and> length os' = length os \<and>
           objidd (os' ! i) = objidd (os ! i) \<and>
           length (obj (os' ! i)) = length (obj (os ! i)) \<and>
           obj (os' ! i) ! j = obj (os ! i) ! j"
proof -
  from run have "doc_frame fieldtype d d'"
    by (auto simp: renamenodes_def split: sum.splits dest: rename_keys_frame)
  then have "rel_option (list_all2 (obj_frame fieldtype)) (map_of (idfobjects d) key) (map_of (idfobjects d') key)"
    by (simp add: doc_frame_def)
  with os obtain os' where os': "map_of (idfobjects d') key = Some os'"
    and all: "list_all2 (obj_frame fieldtype) os os'"
    by (cases "map_of (idfobjects d') key") auto
  from all i have len: "length os' = length os" and fr: "obj_frame fieldtype (os ! i) (os' ! i)"
    by (auto simp: list_all2_conv_all_nth)
  from fr j other os' len show ?thesis
    by (auto simp: obj_frame_def)
qed

lemma rename_doc_run:
  "renamenodes rename_doc ''node'' =
     Inr (rename_doc\<lparr>idfobjects := [(''THING'',
        [\<lparr>obj = [Str ''THING'', Lst [Str ''x'', Str ''y''], Str ''x'', Str ''y''],
          objls = [''key'', ''Name'', ''Note'', ''Inlet_Node_Name''],
          objidd = [[], ty ''alpha'', ty ''alpha'', ty ''node'']\<rparr>])]\<rparr>)"
  by (simp add: renamenodes_def rename_doc_def gather_object_def gather_value_def
        rename_object_def rename_field_def ty_def)

theorem renamenodes_frame_witness:
  "\<exists>d' os os'. renamenodes rename_doc ''node'' = Inr d' \<and>
     map_of (idfobjects rename_doc) ''THING'' = Some os \<and> 0 < length os \<and> 2 < length (obj (os ! 0)) \<and>
     \<not> field_has_type (objidd (os ! 0) ! 1) ''node'' \<and>
     \<not> field_has_type (objidd (os ! 0) ! 2) ''node'' \<and>
     map_of (idfobjects d') ''THING'' = Some os' \<and>
     obj (os' ! 0) ! 1 = Lst [Str ''x'', Str ''y''] \<and> obj (os' ! 0) ! 2 = Str ''x''"
proof -
  let ?os = "[\<lparr>obj = [Str ''THING'', Lst [Str ''x'', Str ''y''], Str ''x'', Str ''x''],
          objls = [''key'', ''Name'', ''Note'', ''Inlet_Node_Name''],
          objidd = [[], ty ''alpha'', ty ''alpha'', ty ''node'']\<rparr>]"
  have os: "map_of (idfobjects rename_doc) ''THING'' = Some ?os"
    by (simp add: rename_doc_def)
  have t1: "\<not> field_has_type (objidd (?os ! 0) ! 1) ''node''"
    and t2: "\<not> field_has_type (objidd (?os ! 0) ! 2) ''node''"
    by (simp_all add: field_has_type_def ty_def)
  from renamenodes_frame[OF rename_doc_run os _ _ t1, simplified]
       renamenodes_frame[OF rename_doc_run os _ _ t2, simplified]
  show ?thesis
    using os t1 t2 by (auto simp: rename_doc_run)
qed

section \<open>Rename propagation: what it rewrites\<close>

lemma gather_value_set: "set (gather_value r v) = set r \<union> (case v of Lst xs \<Rightarrow> {xs} | Str _ \<Rightarrow> {})"
  by (auto simp: gather_value_def split: fieldvalue.splits)

lemma foldl_gather_value_set:
  "set (foldl gather_value r vs) = set r \<union> set (concat (map (\<lambda>v. case v of Lst xs \<Rightarrow> [xs] | Str _ \<Rightarrow> []) vs))"
  by (induction vs arbitrary: r) (auto simp: gather_value_set split: fieldvalue.splits)

lemma gather_object_set: "set (gather_object r b) = set r \<union> set (staged_of_object b)"
  by (simp add: gather_object_def staged_of_object_def foldl_gather_value_set)

lemma foldl_gather_object_set:
  "set (foldl gather_object r os) = set r \<union> set (concat (map staged_of_object os))"
  by (induction os arbitrary: r) (auto simp: gather_object_set)

lemma gather_keys_set:
  "gather_keys d keys r = Inr r' \<Longrightarrow>
     set r' = set r \<union> set (concat (map (\<lambda>key. case map_of (idfobjects d) key of
                           None \<Rightarrow> []
                         | Some os \<Rightarrow> concat (map staged_of_object os)) keys))"
proof (induction d keys r arbitrary: r' rule: gather_keys.induct)
  case (1 d renameds)
  then show ?case by simp
next
  case (2 d key keys renameds)
  then show ?case
    by (auto simp: foldl_gather_object_set split: option.splits)
qed

lemma gather_keys_staged:
  "gather_keys d (dtls d) [] = Inr r \<Longrightarrow> set r = set (staged_values d)"
  by (drule gather_keys_set) (simp add: staged_values_def)

lemma pydict_sound:
  "pydict ps m = Inr m' \<Longrightarrow> m' s = Some v \<Longrightarrow> m s = Some v \<or> [Str s, v] \<in> set ps"
proof (induction ps m arbitrary: m' rule: pydict.induct)
  case (1 m)
  then show ?case by simp
next
  case (2 p ps m)
  from "2.prems"(1) obtain k w where p: "p = [Str k, w]"
    and rest: "pydict ps (m(k \<mapsto> w)) = Inr m'"
    by (auto split: list.splits fieldvalue.splits)
  from "2.IH"[OF _ _ _ _ rest "2.prems"(2)] p
  have "(m(k \<mapsto> w)) s = Some v \<or> [Str s, v] \<in> set ps" by simp
  with p show ?case by (auto split: if_splits)
qed

lemma pydict_complete:
  "pydict ps m = Inr m' \<Longrightarrow> (m s \<noteq> None \<or> (\<exists>v. [Str s, v] \<in> set ps)) \<Longrightarrow> m' s \<noteq> None"
proof (induction ps m arbitrary: m' rule: pydict.induct)
  case (1 m)
  then show ?case by simp
next
  case (2 p ps m)
  from "2.prems"(1) obtain k w where p: "p = [Str k, w]"
    and rest: "pydict ps (m(k \<mapsto> w)) = Inr m'"
    by (auto split: list.splits fieldvalue.splits)
  from "2.prems"(2) p have "(m(k \<mapsto> w)) s \<noteq> None \<or> (\<exists>v. [Str s, v] \<in> set ps)"
    by auto
  from "2.IH"[OF _ _ _ _ rest this] p show ?case by simp
qed

lemma pydict_total:
  "(\<And>p. p \<in> set ps \<Longrightarrow> \<exists>a b. p = [Str a, b]) \<Longrightarrow> \<exists>m'. pydict ps m = Inr m'"
proof (induction ps arbitrary: m)
  case Nil
  then show ?case by simp
next
  case (Cons p ps)
  from Cons.prems[of p] obtain a b where p: "p = [Str a, b]" by auto
  from Cons.prems have "\<And>q. q \<in> set ps \<Longrightarrow> \<exists>a b. q = [Str a, b]" by simp
  from Cons.IH[OF this, of "m(a \<mapsto> b)"] obtain m' where "pydict ps (m(a \<mapsto> b)) = Inr m'"
    by blast
  with p show ?case by simp
qed

lemma rename_field_typed:
  "field_has_type itsidd ft \<Longrightarrow> rename_field ft td itsidd v = Inr v' \<Longrightarrow>
     \<exists>m. td = Inr m \<and>
       (case v of
          Lst xs \<Rightarrow> xs \<noteq> [] \<and> v' = last xs
        | Str s \<Rightarrow> v' = (case m s of Some w \<Rightarrow> w | None \<Rightarrow> v))"
  by (auto simp: rename_field_def field_has_type_def
           split: option.splits list.splits if_splits sum.splits fieldvalue.splits)

lemma rename_fields_nth:
  "rename_fields ft td vs idds = Inr vs' \<Longrightarrow> j < length vs \<Longrightarrow>
     rename_field ft td (idds ! j) (vs ! j) = Inr (vs' ! j)"
proof (induction ft td vs idds arbitrary: vs' j rule: rename_fields.induct)
  case (1 ft td idds)
  then show ?case by simp
next
  case (2 ft td v vs)
  then show ?case by simp
next
  case (3 ft td v vs itsidd idds)
  from "3.prems"(1) obtain w ws where
    w: "rename_field ft td itsidd v = Inr w" and
    ws: "rename_fields ft td vs idds = Inr ws" and
    vs': "vs' = w # ws"
    by (auto split: sum.splits)
  show ?case
  proof (cases j)
    case 0
    with w vs' show ?thesis by simp
  next
    case (Suc j')
    with "3.prems"(2) "3.IH"[OF w ws, of j'] vs' show ?thesis by simp
  qed
qed

lemma mapE_nth:
  "mapE f xs = Inr ys \<Longrightarrow> length ys = length xs \<and> (\<forall>i < length xs. f (xs ! i) = Inr (ys ! i))"
proof (induction xs arbitrary: ys)
  case Nil
  then show ?case by simp
next
  case (Cons x xs)
  from Cons.prems obtain z zs where z: "f x = Inr z" and zs: "mapE f xs = Inr zs" and ys: "ys = z # zs"
    by (auto split: sum.splits)
  from Cons.IH[OF zs] z ys show ?case
    by (auto simp: nth_Cons split: nat.splits)
qed

lemma rename_keys_other:
  "rename_keys ft td keys d = Inr d' \<Longrightarrow> k \<notin> set keys \<Longrightarrow> map_of (idfobjects d') k = map_of (idfobjects d) k"
proof (induction ft td keys d arbitrary: d' rule: rename_keys.induct)
  case (1 ft td d)
  then show ?case by simp
next
  case (2 ft td key keys d)
  from "2.prems"(1) obtain os os' where
    os: "map_of (idfobjects d) key = Some os" and
    m: "mapE (rename_object ft td) os = Inr os'" and
    rest: "rename_keys ft td keys (d\<lparr>idfobjects := AList.update key os' (idfobjects d)\<rparr>) = Inr d'"
    by (auto split: option.splits sum.splits)
  from "2.IH"[OF os m rest] "2.prems"(2) show ?case by (simp add: update_conv')
qed

lemma rename_keys_at:
  "rename_keys ft td keys d = Inr d' \<Longrightarrow> distinct keys \<Longrightarrow> k \<in> set keys \<Longrightarrow>
     \<exists>os os'. map_of (idfobjects d) k = Some os \<and> mapE (rename_object ft td) os = Inr os' \<and>
              map_of (idfobjects d') k = Some os'"
proof (induction ft td keys d arbitrary: d' rule: rename_keys.induct)
  case (1 ft td d)
  then show ?case by simp
next
  case (2 ft td key keys d)
  from "2.prems"(1) obtain os os' where
    os: "map_of (idfobjects d) key = Some os" and
    m: "mapE (rename_object ft td) os = Inr os'" and
    rest: "rename_keys ft td keys (d\<lparr>idfobjects := AList.update key os' (idfobjects d)\<rparr>) = Inr d'"
    by (auto split: option.splits sum.splits)
  show ?case
  proof (cases "k = key")
    case True
    with "2.prems"(2) have "k \<notin> set keys" by simp
    from rename_keys_other[OF rest this] True os m show ?thesis by (simp add: update_conv')
  next
    case False
    with "2.prems" have "distinct keys" "k \<in> set keys" by auto
    from "2.IH"[OF os m rest this] False show ?thesis by (simp add: update_conv')
  qed
qed

text \<open>
  Claim C2, as amended. Let every pending value of the document be a pair of strings
  \<^verbatim>\<open>[old, new]\<close> and let the types of \<open>dtls\<close> be distinct. After a successful
  \<^verbatim>\<open>renamenodes\<close>, a field whose schema type is the given one (\<^verbatim>\<open>node\<close> for the
  propagator) holds a plain string: a pending pair has collapsed to its new identifier, a
  plain value that is the old identifier of some pending pair has become the new identifier
  of a pending pair with that old identifier, and any other plain value is unchanged. The
  statement is about fields of the given type only; the other fields are the subject of C10.
\<close>

theorem renamenodes_fixpoint:
  assumes run: "renamenodes d fieldtype = Inr d'"
    and keys: "distinct (dtls d)" "key \<in> set (dtls d)"
    and os: "map_of (idfobjects d) key = Some os"
    and i: "i < length os"
    and j: "j < length (obj (os ! i))"
    and typed: "field_has_type (objidd (os ! i) ! j) fieldtype"
    and pairs: "\<forall>xs \<in> set (staged_values d). \<exists>a b. xs = [Str a, Str b]"
  shows "\<exists>os'. map_of (idfobjects d') key = Some os' \<and>
           (\<exists>s. obj (os' ! i) ! j = Str s) \<and>
           (\<forall>a b. obj (os ! i) ! j = Lst [Str a, Str b] \<longrightarrow> obj (os' ! i) ! j = Str b) \<and>
           (\<forall>old. obj (os ! i) ! j = Str old \<longrightarrow>
              (if \<exists>new. [Str old, new] \<in> set (staged_values d)
               then \<exists>new. [Str old, Str new] \<in> set (staged_values d) \<and> obj (os' ! i) ! j = Str new
               else obj (os' ! i) ! j = Str old))"
proof -
  from run obtain r where g: "gather_keys d (dtls d) [] = Inr r"
    and rk: "rename_keys fieldtype (pydict r Map.empty) (dtls d) d = Inr d'"
    by (auto simp: renamenodes_def split: sum.splits)
  from gather_keys_staged[OF g] have r: "set r = set (staged_values d)" .
  from rename_keys_at[OF rk keys] os obtain os' where
    m: "mapE (rename_object fieldtype (pydict r Map.empty)) os = Inr os'" and
    os': "map_of (idfobjects d') key = Some os'"
    by auto
  from mapE_nth[OF m] i have
    ro: "rename_object fieldtype (pydict r Map.empty) (os ! i) = Inr (os' ! i)" by simp
  then obtain vs where
    rf: "rename_fields fieldtype (pydict r Map.empty) (obj (os ! i)) (objidd (os ! i)) = Inr vs"
    and eq: "os' ! i = (os ! i)\<lparr>obj := vs\<rparr>"
    by (auto simp: rename_object_def split: sum.splits)
  from eq have vs: "obj (os' ! i) = vs" by simp
  from rename_fields_nth[OF rf j] vs have
    f: "rename_field fieldtype (pydict r Map.empty) (objidd (os ! i) ! j) (obj (os ! i) ! j)
          = Inr (obj (os' ! i) ! j)" by simp
  from rename_field_typed[OF typed f] obtain m where
    pd: "pydict r Map.empty = Inr m" and
    res: "case obj (os ! i) ! j of
            Lst xs \<Rightarrow> xs \<noteq> [] \<and> obj (os' ! i) ! j = last xs
          | Str s \<Rightarrow> obj (os' ! i) ! j = (case m s of Some w \<Rightarrow> w | None \<Rightarrow> obj (os ! i) ! j)"
    by auto
  have here: "\<And>xs. obj (os ! i) ! j = Lst xs \<Longrightarrow> xs \<in> set (staged_values d)"
  proof -
    fix xs assume v: "obj (os ! i) ! j = Lst xs"
    from j have "obj (os ! i) ! j \<in> set (obj (os ! i))" by simp
    with v have "xs \<in> set (staged_of_object (os ! i))"
      by (force simp: staged_of_object_def)
    with i os keys(2) show "xs \<in> set (staged_values d)"
      by (force simp: staged_values_def)
  qed
  show ?thesis
  proof (intro exI[of _ os'] conjI allI impI)
    show "map_of (idfobjects d') key = Some os'" by (rule os')
  next
    show "\<exists>s. obj (os' ! i) ! j = Str s"
    proof (cases "obj (os ! i) ! j")
      case (Str s)
      show ?thesis
      proof (cases "m s")
        case None
        with res Str show ?thesis by simp
      next
        case (Some w)
        from pydict_sound[OF pd Some] r have "[Str s, w] \<in> set (staged_values d)" by simp
        with pairs obtain b where "w = Str b" by fastforce
        with res Str Some show ?thesis by simp
      qed
    next
      case (Lst xs)
      from here[OF Lst] pairs obtain a b where "xs = [Str a, Str b]" by fastforce
      with res Lst show ?thesis by simp
    qed
  next
    fix a b assume "obj (os ! i) ! j = Lst [Str a, Str b]"
    with res show "obj (os' ! i) ! j = Str b" by simp
  next
    fix old assume v: "obj (os ! i) ! j = Str old"
    show "if \<exists>new. [Str old, new] \<in> set (staged_values d)
          then \<exists>new. [Str old, Str new] \<in> set (staged_values d) \<and> obj (os' ! i) ! j = Str new
          else obj (os' ! i) ! j = Str old"
    proof (cases "\<exists>new. [Str old, new] \<in> set (staged_values d)")
      case True
      with pydict_complete[OF pd, of old] r obtain w where w: "m old = Some w" by auto
      from pydict_sound[OF pd w] r have st: "[Str old, w] \<in> set (staged_values d)" by simp
      with pairs obtain b where "w = Str b" by fastforce
      with st res v w True show ?thesis by auto
    next
      case False
      have "m old = None"
      proof (rule ccontr)
        assume "m old \<noteq> None"
        then obtain w where w: "m old = Some w" by auto
        from pydict_sound[OF pd w] r False show False by auto
      qed
      with res v False show ?thesis by simp
    qed
  qed
qed


text \<open>
  Claim C2 as stated fails for the fields that are not of type \<^verbatim>\<open>node\<close>: the \<^verbatim>\<open>Note\<close> field of
  the example holds \<^verbatim>\<open>x\<close>, the old identifier of the pending pair \<^verbatim>\<open>[x, y]\<close>, and still
  holds \<^verbatim>\<open>x\<close> after the propagation.
\<close>

theorem renamenodes_fixpoint_counterexample:
  "\<exists>d' os os'. renamenodes rename_doc ''node'' = Inr d' \<and>
     [Str ''x'', Str ''y''] \<in> set (staged_values rename_doc) \<and>
     map_of (idfobjects rename_doc) ''THING'' = Some os \<and> obj (os ! 0) ! 2 = Str ''x'' \<and>
     map_of (idfobjects d') ''THING'' = Some os' \<and> obj (os' ! 0) ! 2 = Str ''x'' \<and>
     obj (os' ! 0) ! 2 \<noteq> Str ''y''"
  by (simp add: rename_doc_run) (simp add: rename_doc_def staged_values_def staged_of_object_def)

theorem renamenodes_fixpoint_witness:
  "\<exists>d' os os'. renamenodes rename_doc ''node'' = Inr d' \<and>
     distinct (dtls rename_doc) \<and> ''THING'' \<in> set (dtls rename_doc) \<and>
     map_of (idfobjects rename_doc) ''THING'' = Some os \<and> 0 < length os \<and> 3 < length (obj (os ! 0)) \<and>
     field_has_type (objidd (os ! 0) ! 3) ''node'' \<and>
     list_all (\<lambda>xs. xs = [Str ''x'', Str ''y'']) (staged_values rename_doc) \<and>
     obj (os ! 0) ! 3 = Str ''x'' \<and>
     map_of (idfobjects d') ''THING'' = Some os' \<and> obj (os' ! 0) ! 3 = Str ''y''"
proof -
  let ?os = "[\<lparr>obj = [Str ''THING'', Lst [Str ''x'', Str ''y''], Str ''x'', Str ''x''],
          objls = [''key'', ''Name'', ''Note'', ''Inlet_Node_Name''],
          objidd = [[], ty ''alpha'', ty ''alpha'', ty ''node'']\<rparr>]"
  have os: "map_of (idfobjects rename_doc) ''THING'' = Some ?os"
    by (simp add: rename_doc_def)
  have st: "staged_values rename_doc = [[Str ''x'', Str ''y'']]"
    by (simp add: rename_doc_def staged_values_def staged_of_object_def)
  have keys: "distinct (dtls rename_doc)" "''THING'' \<in> set (dtls rename_doc)"
    by (simp_all add: rename_doc_def)
  have typed: "field_has_type (objidd (?os ! 0) ! 3) ''node''"
    by (simp add: field_has_type_def ty_def)
  have pairs: "\<forall>xs \<in> set (staged_values rename_doc). \<exists>a b. xs = [Str a, Str b]"
    by (simp add: st)
  from renamenodes_fixpoint[OF rename_doc_run keys os _ _ typed pairs, simplified]
  show ?thesis
    using os st keys typed by (auto simp: rename_doc_run)
qed

section \<open>Sequencing and evaluation of the examples\<close>

lemma bindE_Inr_iff: "bindE m f = Inr y \<longleftrightarrow> (\<exists>x. m = Inr x \<and> f x = Inr y)"
  by (cases m) (simp_all add: bindE_def)

lemma bindE_Inl [simp]: "bindE (Inl e) f = Inl e"
  by (simp add: bindE_def)

lemma bindE_Inr [simp]: "bindE (Inr x) f = f x"
  by (simp add: bindE_def)

lemma plant_steam_chained:
  "connectcomponents plant_doc (clean_listofcomponents pipes_AB) (Some ''Steam'') =
     Inr plant_doc_chained"
  by code_simp

lemma plant_steam_written:
  "componentsintobranch plant_doc_chained (''BRANCH'', 1) (clean_listofcomponents pipes_AB)
     (Some ''Steam'') = Inr (plant_doc_written, (''BRANCH'', 1))"
  by code_simp

lemma plant_renamed:
  "renamenodes plant_doc_written ''node'' = Inr plant_doc_renamed"
  by code_simp

section \<open>Replacing a branch with a fluid that is neither water nor air\<close>

lemma ports_unhinted_chain:
  "connectcomponents ports_doc
     (clean_listofcomponents [Comp (''CHILLER:ELECTRIC'', 0), Comp (''PIPE:ADIABATIC'', 0)])
     (Some '''') =
   Inl (WhichLoopError ''CHILLER:ELECTRIC - Ch'' [''Chilled_Water_'', ''Condenser_''])"
  by code_simp

text \<open>
  Claim C9, as amended. When the fluid, defaulted to the empty string when omitted, is neither
  \<^verbatim>\<open>WATER\<close> nor \<^verbatim>\<open>AIR\<close> in upper case, the module-level \<^verbatim>\<open>replacebranch\<close> never returns
  a branch, and neither does \<^verbatim>\<open>replacebranch1\<close>, which ends in it. The call runs the
  chaining, the writing of the branch and the first rename propagation in this order: where
  one of them fails the call ends with the exception of that step, and where all three have
  succeeded it ends with the \<^verbatim>\<open>UnboundLocalError\<close> (a \<^verbatim>\<open>NameError\<close>) for
  \<^verbatim>\<open>supplyconlistname\<close>.
\<close>

theorem replacebranch_unbound:
  assumes water: "py_upper (case fluid of None \<Rightarrow> '''' | Some f \<Rightarrow> f) \<noteq> ''WATER''"
    and air: "py_upper (case fluid of None \<Rightarrow> '''' | Some f \<Rightarrow> f) \<noteq> ''AIR''"
  shows "replacebranch d lp branch listofcomponents fluid =
           (case connectcomponents d (clean_listofcomponents listofcomponents)
                   (Some (case fluid of None \<Rightarrow> '''' | Some f \<Rightarrow> f)) of
              Inl e \<Rightarrow> Inl e
            | Inr d1 \<Rightarrow>
                (case componentsintobranch d1 branch (clean_listofcomponents listofcomponents)
                        (Some (case fluid of None \<Rightarrow> '''' | Some f \<Rightarrow> f)) of
                   Inl e \<Rightarrow> Inl e
                 | Inr written \<Rightarrow>
                     (case renamenodes (fst written) ''node'' of
                        Inl e \<Rightarrow> Inl e
                      | Inr d3 \<Rightarrow> Inl UnboundLocalError))) \<and>
         (\<forall>res. replacebranch d lp branch listofcomponents fluid \<noteq> Inr res) \<and>
         (\<forall>res. replacebranch1 d lp branchname tuples fluid \<noteq> Inr res)"
proof -
  have never: "\<And>d0 b0 cs fl. py_upper fl \<noteq> ''WATER'' \<Longrightarrow> py_upper fl \<noteq> ''AIR'' \<Longrightarrow>
      replacebranch d0 lp b0 cs (Some fl) \<noteq> Inr res" for res
    by (auto simp: replacebranch_def rebind_ends_def Let_def bindE_Inr_iff)
  have 1: "replacebranch d lp branch listofcomponents fluid \<noteq> Inr res" for res
    using water air
    by (auto simp: replacebranch_def rebind_ends_def Let_def bindE_Inr_iff)
  have 2: "replacebranch1 d lp branchname tuples fluid \<noteq> Inr res" for res
    using water air never
    by (auto simp: replacebranch1_def Let_def bindE_Inr_iff split: option.splits)
  have 3: "replacebranch d lp branch listofcomponents fluid =
           (case connectcomponents d (clean_listofcomponents listofcomponents)
                   (Some (case fluid of None \<Rightarrow> '''' | Some f \<Rightarrow> f)) of
              Inl e \<Rightarrow> Inl e
            | Inr d1 \<Rightarrow>
                (case componentsintobranch d1 branch (clean_listofcomponents listofcomponents)
                        (Some (case fluid of None \<Rightarrow> '''' | Some f \<Rightarrow> f)) of
                   Inl e \<Rightarrow> Inl e
                 | Inr written \<Rightarrow>
                     (case renamenodes (fst written) ''node'' of
                        Inl e \<Rightarrow> Inl e
                      | Inr d3 \<Rightarrow> Inl UnboundLocalError)))"
    using water air
    by (simp add: replacebranch_def rebind_ends_def Let_def split: sum.splits)
  from 1 2 3 show ?thesis by blast
qed

theorem replacebranch_unbound_witness:
  "py_upper ''Steam'' \<noteq> ''WATER'' \<and> py_upper ''Steam'' \<noteq> ''AIR'' \<and>
   connectcomponents plant_doc (clean_listofcomponents pipes_AB) (Some ''Steam'') =
     Inr plant_doc_chained \<and>
   componentsintobranch plant_doc_chained (''BRANCH'', 1) (clean_listofcomponents pipes_AB)
     (Some ''Steam'') = Inr (plant_doc_written, (''BRANCH'', 1)) \<and>
   renamenodes plant_doc_written ''node'' = Inr plant_doc_renamed \<and>
   replacebranch plant_doc plant_loop (''BRANCH'', 1) pipes_AB (Some ''Steam'') =
     Inl UnboundLocalError"
proof -
  have w: "py_upper (case Some ''Steam'' of None \<Rightarrow> '''' | Some f \<Rightarrow> f) \<noteq> ''WATER''"
    and a: "py_upper (case Some ''Steam'' of None \<Rightarrow> '''' | Some f \<Rightarrow> f) \<noteq> ''AIR''"
    by (simp_all add: py_upper_def)
  from replacebranch_unbound[OF w a, of plant_doc plant_loop "(''BRANCH'', 1)" pipes_AB]
  have "replacebranch plant_doc plant_loop (''BRANCH'', 1) pipes_AB (Some ''Steam'') =
          Inl UnboundLocalError"
    using plant_steam_chained plant_steam_written plant_renamed by simp
  with w a show ?thesis
    using plant_steam_chained plant_steam_written plant_renamed by simp
qed

text \<open>
  Claim C9 as stated fails: not every such call ends in the \<^verbatim>\<open>NameError\<close>, and not every
  one gets as far as chaining and rewriting the branch. With the fluid omitted and the
  chiller, which has two inlet fields, listed without a port hint, the chaining raises
  \<^verbatim>\<open>WhichLoopError\<close> and the call ends there.
\<close>

theorem replacebranch_unbound_counterexample:
  "replacebranch ports_doc plant_loop (''PIPE:ADIABATIC'', 0)
     [Comp (''CHILLER:ELECTRIC'', 0), Comp (''PIPE:ADIABATIC'', 0)] None =
   Inl (WhichLoopError ''CHILLER:ELECTRIC - Ch'' [''Chilled_Water_'', ''Condenser_'']) \<and>
   Inl (WhichLoopError ''CHILLER:ELECTRIC - Ch'' [''Chilled_Water_'', ''Condenser_'']) \<noteq>
     (Inl UnboundLocalError :: error + idf \<times> ref)"
  using ports_unhinted_chain by (simp add: replacebranch_def Let_def)

section \<open>Writing a branch: five slots per component\<close>




lemma deref_store:
  "deref (store d r b) r' =
     (if r' = r then (case deref d r of Inl e \<Rightarrow> Inl e | Inr b0 \<Rightarrow> Inr b) else deref d r')"
  by (cases r; cases r')
     (auto simp: deref_def store_def update_conv' split: option.splits)


lemma obj_append_eq:
  "deref d tb = Inr b \<Longrightarrow> obj_append d tb v = Inr (store d tb (b\<lparr>obj := obj b @ [v]\<rparr>))"
  by (simp add: obj_append_def)

lemma getitem_store_other:
  "r' \<noteq> r \<Longrightarrow> getitem (store d r b) r' name = getitem d r' name"
  by (simp add: getitem_def deref_store)
















section \<open>Ambiguous ports\<close>




lemma endswith_not_short: "py_endswith f suffix \<Longrightarrow> length name < length suffix \<Longrightarrow> f \<noteq> name"
  by (auto simp: py_endswith_def)







section \<open>Chaining: the port hint of the next component\<close>

text \<open>
  Claim C1, evaluated where the code departs from it. The pipe \<^verbatim>\<open>P\<close> is chained in front of
  the chiller \<^verbatim>\<open>Ch\<close>, given with the port hint \<^verbatim>\<open>Condenser_\<close>.
  \<^verbatim>\<open>connectcomponents\<close> resolves the outlet of \<^verbatim>\<open>P\<close> with the hint of \<^verbatim>\<open>P\<close>, but the inlet
  of \<^verbatim>\<open>Ch\<close> without the hint of \<^verbatim>\<open>Ch\<close>: the shared identifier \<^verbatim>\<open>P_Ch_node\<close> is staged on
  the chilled-water inlet. The inlet that the hint selects, which is the one
  \<^verbatim>\<open>componentsintobranch\<close> writes into the branch (\<open>branch_row\<close>), holds the default name
  that \<^verbatim>\<open>initinletoutlet\<close> gave it, so the outlet of \<^verbatim>\<open>P\<close> and the inlet of \<^verbatim>\<open>Ch\<close> differ.
\<close>

theorem connectcomponents_ignores_inlet_hint:
  "connectcomponents ports_doc pipe_then_condenser None = Inr ports_doc_chained \<and>
   branch_row ports_doc_chained '''' ((''PIPE:ADIABATIC'', 0), None) =
     Inr [Str ''PIPE:ADIABATIC'', Str ''P'', Str ''P_Inlet_Node_Name'',
          Lst [Str ''P_Outlet_Node_Name'', Str ''P_Ch_node''], Str ''''] \<and>
   branch_row ports_doc_chained '''' ((''CHILLER:ELECTRIC'', 0), Some ''Condenser_'') =
     Inr [Str ''CHILLER:ELECTRIC'', Str ''Ch'', Str ''Ch_Condenser_Inlet_Node_Name'',
          Str ''Ch_Condenser_Outlet_Node_Name'', Str ''''] \<and>
   getitem ports_doc_chained (''CHILLER:ELECTRIC'', 0) ''Chilled_Water_Inlet_Node_Name'' =
     Inr (Lst [Str '''', Str ''P_Ch_node''])"
  by code_simp

section \<open>Replacing a branch that is not at a boundary\<close>

lemma listed_connectors_Cons:
  "i < 100000 \<Longrightarrow> connector_at d cl i = Inr (Some c) \<Longrightarrow>
     listed_connectors d cl i = c # listed_connectors d cl (Suc i)"
  by (subst listed_connectors.simps) simp

lemma connector_names_apart:
  assumes nb: "\<not> boundary_connector d c nm"
    and cb: "fst vars \<noteq> Some nm"
    and run: "connector_names d c vars = Inr vars2"
  shows "fst vars2 \<noteq> Some nm"
proof -
  from run obtain ckey vars1 where
    key: "getitem d c ''key'' = Inr ckey" and
    c1: "(if ckey = Str ''CONNECTOR:SPLITTER''
          then bindE (getitem d c ''Inlet_Branch_Name'') (\<lambda>n. Inr (Some n, Some True))
          else Inr vars) = Inr vars1" and
    c2: "(if ckey = Str ''CONNECTOR:MIXER''
          then bindE (getitem d c ''Outlet_Branch_Name'') (\<lambda>n. Inr (Some n, Some False))
          else Inr vars1) = Inr vars2"
    by (auto simp: connector_names_def bindE_Inr_iff)
  have v1: "fst vars1 \<noteq> Some nm"
  proof (cases "ckey = Str ''CONNECTOR:SPLITTER''")
    case True
    with c1 obtain n where n: "getitem d c ''Inlet_Branch_Name'' = Inr n" and "fst vars1 = Some n"
      by (auto simp: bindE_Inr_iff)
    with key True nb show ?thesis by (auto simp: boundary_connector_def)
  next
    case False
    with c1 cb show ?thesis by simp
  qed
  show ?thesis
  proof (cases "ckey = Str ''CONNECTOR:MIXER''")
    case True
    with c2 obtain n where n: "getitem d c ''Outlet_Branch_Name'' = Inr n" and "fst vars2 = Some n"
      by (auto simp: bindE_Inr_iff)
    with key True nb show ?thesis by (auto simp: boundary_connector_def)
  next
    case False
    with c2 v1 show ?thesis by simp
  qed
qed

lemma connector_rebind_apart:
  assumes name: "getitem d thebranch ''Name'' = Inr nm"
    and cb: "fst vars \<noteq> Some nm"
    and run: "connector_rebind lp flnames thebranch fluid k_in k_out d vars = Inr d'"
  shows "d' = d"
  using assms by (auto simp: connector_rebind_def split: option.splits)

lemma connector_step_apart:
  assumes step: "connector_step lp flnames (Some cl) thebranch fluid k_in k_out i (d, cb, isf) =
                 Inr (Some (d', cb', isf'))"
    and name: "getitem d thebranch ''Name'' = Inr nm"
    and cb: "cb \<noteq> Some nm"
    and nb: "\<And>c. connector_at d cl i = Inr (Some c) \<Longrightarrow> \<not> boundary_connector d c nm"
  shows "d' = d \<and> cb' \<noteq> Some nm \<and> (\<exists>c. connector_at d cl i = Inr (Some c))"
proof -
  from step obtain c vars where
    at: "connector_at d cl i = Inr (Some c)" and
    names: "connector_names d c (cb, isf) = Inr vars" and
    rebind: "connector_rebind lp flnames thebranch fluid k_in k_out d vars = Inr d'" and
    vars: "vars = (cb', isf')"
    by (auto simp: connector_step_def bindE_Inr_iff split: option.splits)
  from connector_names_apart[OF nb[OF at] _ names] cb have v: "fst vars \<noteq> Some nm" by simp
  from connector_rebind_apart[OF name v rebind] v vars at show ?thesis by simp
qed

lemma scan_connectors_apart:
  "scan_connectors lp flnames conlist thebranch fluid k_in k_out i st = Inr st' \<Longrightarrow>
   conlist = Some cl \<Longrightarrow>
   \<not> list_ex (\<lambda>c. boundary_connector (fst st) c nm) (listed_connectors (fst st) cl i) \<Longrightarrow>
   getitem (fst st) thebranch ''Name'' = Inr nm \<Longrightarrow>
   fst (snd st) \<noteq> Some nm \<Longrightarrow>
   fst st' = fst st \<and> fst (snd st') \<noteq> Some nm"
proof (induction lp flnames conlist thebranch fluid k_in k_out i st
       rule: scan_connectors.induct)
  case (1 lp flnames conlist thebranch fluid k_in k_out i st)
  show ?case
  proof (cases "100000 \<le> i")
    case True
    with "1.prems" show ?thesis by (simp add: scan_connectors.simps)
  next
    case False
    show ?thesis
    proof (cases "connector_step lp flnames conlist thebranch fluid k_in k_out i st")
      case (Inl e)
      with False "1.prems"(1) show ?thesis by (simp add: scan_connectors.simps)
    next
      case (Inr res)
      show ?thesis
      proof (cases res)
        case None
        with Inr False "1.prems" show ?thesis by (simp add: scan_connectors.simps)
      next
        case (Some st1)
        obtain d cb isf where st: "st = (d, cb, isf)" by (cases st) auto
        obtain d1 cb1 isf1 where st1: "st1 = (d1, cb1, isf1)" by (cases st1) auto
        from Inr Some st st1 "1.prems"(2) have step:
          "connector_step lp flnames (Some cl) thebranch fluid k_in k_out i (d, cb, isf) =
             Inr (Some (d1, cb1, isf1))" by simp
        have nb: "\<not> boundary_connector d c nm" if "connector_at d cl i = Inr (Some c)" for c
          using that "1.prems"(3) False st by (simp add: listed_connectors_Cons)
        from connector_step_apart[OF step _ _ nb] "1.prems"(4,5) st
        obtain c where keep: "d1 = d" "cb1 \<noteq> Some nm" and at: "connector_at d cl i = Inr (Some c)"
          by auto
        from "1.prems"(3) False st at
        have rest: "\<not> list_ex (\<lambda>c. boundary_connector d c nm) (listed_connectors d cl (Suc i))"
          by (simp add: listed_connectors_Cons)
        from Inr Some False "1.prems"(1) have run:
          "scan_connectors lp flnames conlist thebranch fluid k_in k_out (Suc i) st1 = Inr st'"
          by (simp add: scan_connectors.simps)
        from "1.IH"[OF False Inr Some run "1.prems"(2)] keep rest "1.prems"(4) st st1
        show ?thesis by simp
      qed
    qed
  qed
qed

lemma scan_connectors_None:
  "scan_connectors lp flnames None thebranch fluid k_in k_out 1 st \<noteq> Inr st'"
  by (subst scan_connectors.simps) (simp add: connector_step_def)

lemma rebind_ends_apart:
  assumes name: "getitem d3 branch ''Name'' = Inr nm"
    and nb: "\<not> boundary_branch d3 lp fluid nm"
    and run: "rebind_ends d3 lp branch fluid = Inr d5"
  shows "d5 = d3"
proof -
  let ?flnames = "map spaces_to_underscores (loopfields lp)"
  from run obtain sname supplyconlist st4 where
    sn: "(if py_upper fluid = ''WATER''
          then bindE (py_nth ?flnames 3) (\<lambda>f. getitem d3 (loop lp) f)
          else if py_upper fluid = ''AIR''
          then bindE (py_nth ?flnames 1) (\<lambda>f. getitem d3 (loop lp) f)
          else Inl UnboundLocalError) = Inr sname"
    and sq: "getobject d3 ''CONNECTORLIST'' sname = Inr supplyconlist"
    and s1: "scan_connectors lp ?flnames supplyconlist branch fluid 0 1 1 (d3, None, None) = Inr st4"
    and s2: "(if py_upper fluid = ''WATER''
             then
               bindE (py_nth ?flnames 7) (\<lambda>f.
               bindE (getitem (fst st4) (loop lp) f) (\<lambda>demandconlistname.
               bindE (getobject (fst st4) ''CONNECTORLIST'' demandconlistname) (\<lambda>demandconlist.
               bindE (scan_connectors lp ?flnames demandconlist branch fluid 4 5 1 st4)
                 (\<lambda>st5. Inr (fst st5)))))
             else Inr (fst st4)) = Inr d5"
    unfolding rebind_ends_def Let_def bindE_Inr_iff by blast
  from s1 scan_connectors_None obtain scl where scl: "supplyconlist = Some scl"
    by (cases supplyconlist) auto
  have side: "listed_connectors d3 scl 1 =
              side_connectors d3 lp (if py_upper fluid = ''WATER'' then 3 else 1)"
    using sn sq scl by (auto simp: side_connectors_def split: if_splits)
  from nb side have nbs: "\<not> list_ex (\<lambda>c. boundary_connector d3 c nm) (listed_connectors d3 scl 1)"
    by (auto simp: boundary_branch_def split: if_splits)
  from scan_connectors_apart[OF s1 scl, where nm = nm] nbs name
  have k4: "fst st4 = d3" "fst (snd st4) \<noteq> Some nm" by auto
  show ?thesis
  proof (cases "py_upper fluid = ''WATER''")
    case True
    with s2 k4 obtain dname demandconlist st5 where
      dn: "bindE (py_nth ?flnames 7) (\<lambda>f. getitem d3 (loop lp) f) = Inr dname"
      and dq: "getobject d3 ''CONNECTORLIST'' dname = Inr demandconlist"
      and sc: "scan_connectors lp ?flnames demandconlist branch fluid 4 5 1 st4 = Inr st5"
      and d5: "d5 = fst st5"
      by (auto simp: bindE_Inr_iff)
    from sc scan_connectors_None obtain dcl where dcl: "demandconlist = Some dcl"
      by (cases demandconlist) auto
    have "listed_connectors d3 dcl 1 = side_connectors d3 lp 7"
      using dn dq dcl by (auto simp: side_connectors_def)
    with nb True have nbd: "\<not> list_ex (\<lambda>c. boundary_connector d3 c nm) (listed_connectors d3 dcl 1)"
      by (auto simp: boundary_branch_def)
    from scan_connectors_apart[OF sc dcl, where nm = nm] k4 nbd name d5 show ?thesis by simp
  next
    case False
    with s2 k4 show ?thesis by simp
  qed
qed

lemma setitem_other:
  "setitem d c f v = Inr d' \<Longrightarrow> r \<noteq> c \<Longrightarrow> deref d' r = deref d r"
  by (auto simp: setitem_def bindE_Inr_iff deref_store)

lemma init_fields_other:
  "init_fields d c force fs = Inr d' \<Longrightarrow> r \<noteq> c \<Longrightarrow> deref d' r = deref d r"
proof (induction fs arbitrary: d)
  case Nil
  then show ?case by simp
next
  case (Cons f fs)
  from Cons.prems(1) obtain v where v: "getitem d c f = Inr v"
    by (auto simp: bindE_Inr_iff)
  show ?case
  proof (cases "blankfield v \<or> force")
    case False
    with Cons.prems v Cons.IH[of d] show ?thesis by simp
  next
    case True
    with Cons.prems(1) v obtain nm d1 where
      d1: "setitem d c f (Str (py_str nm @ ''_'' @ f)) = Inr d1" and
      rest: "init_fields d1 c force fs = Inr d'"
      by (auto simp: bindE_Inr_iff)
    from Cons.IH[OF rest Cons.prems(2)] setitem_other[OF d1 Cons.prems(2)] show ?thesis by simp
  qed
qed

lemma initinletoutlet_other:
  assumes run: "initinletoutlet d c n force = Inr d'" and ne: "r \<noteq> c"
  shows "deref d' r = deref d r"
proof -
  from run obtain fs d1 gs where
    1: "init_fields d c force fs = Inr d1" and 2: "init_fields d1 c force gs = Inr d'"
    by (auto simp: initinletoutlet_def bindE_Inr_iff)
  from init_fields_other[OF 1 ne] init_fields_other[OF 2 ne] show ?thesis by simp
qed

lemma connect_pair_other:
  assumes run: "connect_pair d fl this next = Inr d'"
    and ne: "r \<noteq> fst this" "r \<noteq> fst next"
  shows "deref d' r = deref d r"
proof -
  obtain tc tn where th: "this = (tc, tn)" by (cases this) auto
  obtain nc nn where nx: "next = (nc, nn)" by (cases "next") auto
  from run obtain d1 d2 d3 f v g w where
    1: "initinletoutlet d tc tn False = Inr d1" and
    2: "initinletoutlet d1 nc nn False = Inr d2" and
    3: "setitem d2 tc f v = Inr d3" and
    4: "setitem d3 nc g w = Inr d'"
    unfolding connect_pair_def th nx prod.case bindE_Inr_iff by blast
  from ne th nx have ne': "r \<noteq> tc" "r \<noteq> nc" by auto
  from initinletoutlet_other[OF 1 ne'(1)] initinletoutlet_other[OF 2 ne'(2)]
       setitem_other[OF 3 ne'(1)] setitem_other[OF 4 ne'(2)]
  show ?thesis by simp
qed

lemma connect_pairs_other:
  "connect_pairs d fl comps = Inr d' \<Longrightarrow> r \<notin> fst ` set comps \<Longrightarrow> deref d' r = deref d r"
proof (induction d fl comps rule: connect_pairs.induct)
  case (1 d fl this "next" rest)
  from "1.prems"(1) obtain d1 where
    p: "connect_pair d fl this next = Inr d1" and
    r: "connect_pairs d1 fl (next # rest) = Inr d'"
    by (auto simp: bindE_Inr_iff)
  from "1.prems"(2) have ne: "r \<noteq> fst this" "r \<noteq> fst next" "r \<notin> fst ` set (next # rest)"
    by auto
  from "1.IH"[OF r ne(3)] connect_pair_other[OF p ne(1,2)] show ?case by simp
qed simp_all

lemma connectcomponents_other:
  assumes run: "connectcomponents d comps fluid = Inr d'" and ne: "r \<notin> fst ` set comps"
  shows "deref d' r = deref d r"
proof (cases "\<exists>c n. comps = [(c, n)]")
  case True
  then obtain c n where comps: "comps = [(c, n)]" by blast
  from run obtain d1 f v where
    1: "initinletoutlet d c n False = Inr d1" and 2: "setitem d1 c f v = Inr d'"
    unfolding connectcomponents_def comps Let_def list.case prod.case bindE_Inr_iff by blast
  from ne comps have "r \<noteq> c" by simp
  from initinletoutlet_other[OF 1 this] setitem_other[OF 2 this] show ?thesis by simp
next
  case False
  with run have "connect_pairs d (case fluid of None \<Rightarrow> '''' | Some f \<Rightarrow> f) comps = Inr d'"
    by (auto simp: connectcomponents_def Let_def split: list.splits prod.splits)
  from connect_pairs_other[OF this ne] show ?thesis .
qed

lemma obj_append_other:
  "obj_append d tb v = Inr d' \<Longrightarrow> r \<noteq> tb \<Longrightarrow> deref d' r = deref d r"
  by (auto simp: obj_append_def bindE_Inr_iff deref_store)

lemma append_component_other:
  assumes run: "append_component d tb fl item = Inr d'" and ne: "r \<noteq> tb"
  shows "deref d' r = deref d r"
proof -
  obtain c n where item: "item = (c, n)" by (cases item) auto
  from run obtain k d1 nm d2 iv d3 ov d4 where
    1: "obj_append d tb k = Inr d1" and 2: "obj_append d1 tb nm = Inr d2" and
    3: "obj_append d2 tb iv = Inr d3" and 4: "obj_append d3 tb ov = Inr d4" and
    5: "obj_append d4 tb (Str '''') = Inr d'"
    unfolding append_component_def item prod.case bindE_Inr_iff by blast
  from obj_append_other[OF 1 ne] obj_append_other[OF 2 ne] obj_append_other[OF 3 ne]
       obj_append_other[OF 4 ne] obj_append_other[OF 5 ne]
  show ?thesis by simp
qed

lemma append_components_other:
  "append_components d tb fl items = Inr d' \<Longrightarrow> r \<noteq> tb \<Longrightarrow> deref d' r = deref d r"
proof (induction items arbitrary: d)
  case Nil
  then show ?case by simp
next
  case (Cons item items)
  from Cons.prems(1) obtain d1 where
    1: "append_component d tb fl item = Inr d1" and 2: "append_components d1 tb fl items = Inr d'"
    by (auto simp: bindE_Inr_iff)
  from Cons.IH[OF 2 Cons.prems(2)] append_component_other[OF 1 Cons.prems(2)] show ?case by simp
qed

lemma componentsintobranch_other:
  assumes run: "componentsintobranch d branch comps fluid = Inr (d', tb)" and ne: "r \<noteq> tb"
  shows "deref d' r = deref d r"
proof -
  from run obtain name d1 found e_index b1 where
    rm: "removeextensibles d ''BRANCH'' name = Inr (d1, found)" and
    found: "found = Some tb" and
    app: "append_components (store d1 tb (b1\<lparr>obj := extendlist (obj b1) e_index\<rparr>))
            tb (case fluid of None \<Rightarrow> '''' | Some f \<Rightarrow> f) comps = Inr d'"
    by (auto simp: componentsintobranch_def Let_def bindE_Inr_iff split: option.splits)
  from rm found ne have "deref d1 r = deref d r"
    by (auto simp: removeextensibles_def bindE_Inr_iff deref_store split: option.splits)
  with append_components_other[OF app ne] ne show ?thesis
    by (simp add: deref_store)
qed

lemma rename_field_kept:
  "rename_field ft td itsidd (Str v) = Inr w \<Longrightarrow> (\<And>m. td = Inr m \<Longrightarrow> m v = None) \<Longrightarrow>
     w = Str v"
  by (auto simp: rename_field_def split: option.splits list.splits if_splits sum.splits)

lemma rename_object_keeps:
  assumes run: "rename_object ft td b = Inr b'" and fresh: "\<And>m. td = Inr m \<Longrightarrow> m v = None"
  shows "keeps_plain v b b'"
proof -
  from run obtain vs where vs: "rename_fields ft td (obj b) (objidd b) = Inr vs"
    and b': "b' = b\<lparr>obj := vs\<rparr>"
    by (auto simp: rename_object_def split: sum.splits)
  from rename_fields_frame[OF vs] have len: "length vs = length (obj b)" by simp
  have "vs ! j = Str v" if "j < length (obj b)" "obj b ! j = Str v" for j
    using rename_fields_nth[OF vs that(1)] that(2) fresh
    by (auto dest: rename_field_kept)
  with len b' show ?thesis by (simp add: keeps_plain_def)
qed

lemma rename_keys_rel:
  assumes refl: "\<And>b. R b b"
    and trans: "\<And>a b c. R a b \<Longrightarrow> R b c \<Longrightarrow> R a c"
  shows "rename_keys ft td keys d = Inr d' \<Longrightarrow>
         (\<And>b b'. rename_object ft td b = Inr b' \<Longrightarrow> R b b') \<Longrightarrow>
         rel_option (list_all2 R) (map_of (idfobjects d) k) (map_of (idfobjects d') k)"
proof (induction ft td keys d arbitrary: d' rule: rename_keys.induct)
  case (1 ft td d)
  then show ?case by (auto simp: option.rel_refl list.rel_refl refl)
next
  case (2 ft td key keys d)
  from "2.prems"(1) obtain os os' where
    os: "map_of (idfobjects d) key = Some os" and
    m: "mapE (rename_object ft td) os = Inr os'" and
    rest: "rename_keys ft td keys (d\<lparr>idfobjects := AList.update key os' (idfobjects d)\<rparr>) = Inr d'"
    by (auto split: option.splits sum.splits)
  have all: "list_all2 R os os'"
    by (rule mapE_list_all2[OF m]) (rule "2.prems"(2))
  have one: "rel_option (list_all2 R) (map_of (idfobjects d) k)
               (map_of (idfobjects (d\<lparr>idfobjects := AList.update key os' (idfobjects d)\<rparr>)) k)"
    using os all by (auto simp: update_conv' option.rel_refl list.rel_refl refl)
  have two: "rel_option (list_all2 R)
               (map_of (idfobjects (d\<lparr>idfobjects := AList.update key os' (idfobjects d)\<rparr>)) k)
               (map_of (idfobjects d') k)"
    by (rule "2.IH"[OF os m rest "2.prems"(2)])
  have tr: "list_all2 R xs ys \<Longrightarrow> list_all2 R ys zs \<Longrightarrow> list_all2 R xs zs" for xs ys zs
    by (rule list_all2_trans[where ?P1.0 = R and ?P2.0 = R]) (auto intro: trans)
  from one two show ?case
    by (cases "map_of (idfobjects d) k";
        cases "map_of (idfobjects (d\<lparr>idfobjects := AList.update key os' (idfobjects d)\<rparr>)) k";
        cases "map_of (idfobjects d') k")
       (auto intro: tr)
qed

lemma keeps_plain_refl: "keeps_plain v b b"
  by (simp add: keeps_plain_def)

lemma keeps_plain_trans: "keeps_plain v a b \<Longrightarrow> keeps_plain v b c \<Longrightarrow> keeps_plain v a c"
  by (simp add: keeps_plain_def)

lemma keeps_plain_getfield:
  "keeps_plain v b b' \<Longrightarrow> getfield b f = Inr (Str v) \<Longrightarrow> getfield b' f = Inr (Str v)"
  by (auto simp: keeps_plain_def getfield_def split: option.splits if_splits)

lemma renamenodes_kept:
  assumes run: "renamenodes d ft = Inr d'"
    and held: "getitem d r f = Inr (Str v)"
    and fresh: "Str v \<notin> set (old_identifiers d)"
  shows "getitem d' r f = Inr (Str v)"
proof -
  from run obtain renameds where
    g: "gather_keys d (dtls d) [] = Inr renameds" and
    rk: "rename_keys ft (pydict renameds Map.empty) (dtls d) d = Inr d'"
    by (auto simp: renamenodes_def split: sum.splits)
  have none: "m v = None" if m: "pydict renameds Map.empty = Inr m" for m
  proof (rule ccontr)
    assume "m v \<noteq> None"
    then obtain w where "m v = Some w" by auto
    from pydict_sound[OF m this] have "[Str v, w] \<in> set (staged_values d)"
      using gather_keys_staged[OF g] by simp
    then have "Str v \<in> set (old_identifiers d)"
      by (force simp: old_identifiers_def)
    with fresh show False by simp
  qed
  have rel: "rel_option (list_all2 (keeps_plain v)) (map_of (idfobjects d) (fst r))
               (map_of (idfobjects d') (fst r))"
    by (rule rename_keys_rel[OF keeps_plain_refl keeps_plain_trans rk])
       (auto intro: rename_object_keeps none)
  from held obtain b where b: "deref d r = Inr b" and gf: "getfield b f = Inr (Str v)"
    by (auto simp: getitem_def bindE_Inr_iff)
  from b obtain os where os: "map_of (idfobjects d) (fst r) = Some os" and i: "snd r < length os"
    and bi: "b = os ! snd r"
    by (auto simp: deref_def split: option.splits if_splits)
  from rel os obtain os' where os': "map_of (idfobjects d') (fst r) = Some os'"
    and all: "list_all2 (keeps_plain v) os os'"
    by (cases "map_of (idfobjects d') (fst r)") auto
  from all i have len: "length os' = length os" and k: "keeps_plain v (os ! snd r) (os' ! snd r)"
    by (auto simp: list_all2_conv_all_nth)
  from keeps_plain_getfield[OF k] gf bi os' len i show ?thesis
    by (simp add: getitem_def deref_def)
qed

lemma scan_two_connectors:
  assumes "connector_step lp flnames conlist thebranch fluid k_in k_out 1 st = Inr (Some st1)"
    and "connector_step lp flnames conlist thebranch fluid k_in k_out 2 st1 = Inr (Some st2)"
    and "connector_step lp flnames conlist thebranch fluid k_in k_out 3 st2 = Inr None"
  shows "scan_connectors lp flnames conlist thebranch fluid k_in k_out 1 st = Inr st2"
proof -
  have 3: "scan_connectors lp flnames conlist thebranch fluid k_in k_out 3 st2 = Inr st2"
    using assms(3) by (subst scan_connectors.simps) simp
  have 2: "scan_connectors lp flnames conlist thebranch fluid k_in k_out 2 st1 = Inr st2"
    using assms(2) 3 by (subst scan_connectors.simps) (simp add: numeral_3_eq_3 numeral_2_eq_2)
  show ?thesis
    using assms(1) 2 by (subst scan_connectors.simps) (simp add: numeral_2_eq_2)
qed

lemma plant_water_chained:
  "connectcomponents plant_doc (clean_listofcomponents pipes_AB) (Some ''Water'') =
     Inr plant_doc_chained"
  by code_simp

lemma plant_water_written:
  "componentsintobranch plant_doc_chained (''BRANCH'', 1) (clean_listofcomponents pipes_AB)
     (Some ''Water'') = Inr (plant_doc_written, (''BRANCH'', 1))"
  by code_simp

lemma plant_renamed_again:
  "renamenodes plant_doc_renamed ''node'' = Inr plant_doc_renamed"
  by code_simp

lemma plant_renamed_ends:
  "rebind_ends plant_doc_renamed plant_loop (''BRANCH'', 1) ''Water'' = Inr plant_doc_renamed"
proof -
  let ?fl = "map spaces_to_underscores (loopfields plant_loop)"
  have w: "py_upper ''Water'' = ''WATER''"
    by code_simp
  have sn: "bindE (py_nth ?fl 3) (getitem plant_doc_renamed (loop plant_loop)) =
              Inr (Str ''p Supply Connectors'')"
    by code_simp
  have sq: "getobject plant_doc_renamed ''CONNECTORLIST'' (Str ''p Supply Connectors'') =
              Inr (Some (''CONNECTORLIST'', 0))"
    by code_simp
  have s1: "connector_step plant_loop ?fl (Some (''CONNECTORLIST'', 0)) (''BRANCH'', 1) ''Water'' 0 1 1
              (plant_doc_renamed, None, None) = Inr (Some (plant_doc_renamed, Some (Str ''sb0''), Some True))"
    by code_simp
  have s2: "connector_step plant_loop ?fl (Some (''CONNECTORLIST'', 0)) (''BRANCH'', 1) ''Water'' 0 1 2
              (plant_doc_renamed, Some (Str ''sb0''), Some True) =
              Inr (Some (plant_doc_renamed, Some (Str ''sb2''), Some False))"
    by code_simp
  have s3: "connector_step plant_loop ?fl (Some (''CONNECTORLIST'', 0)) (''BRANCH'', 1) ''Water'' 0 1 3
              (plant_doc_renamed, Some (Str ''sb2''), Some False) = Inr None"
    by code_simp
  have dn: "py_nth ?fl 7 = Inr ''Demand_Side_Connector_List_Name''"
    by code_simp
  have dv: "getitem plant_doc_renamed (loop plant_loop) ''Demand_Side_Connector_List_Name'' =
              Inr (Str ''p Demand Connectors'')"
    by code_simp
  have dq: "getobject plant_doc_renamed ''CONNECTORLIST'' (Str ''p Demand Connectors'') =
              Inr (Some (''CONNECTORLIST'', 1))"
    by code_simp
  have d1: "connector_step plant_loop ?fl (Some (''CONNECTORLIST'', 1)) (''BRANCH'', 1) ''Water'' 4 5 1
              (plant_doc_renamed, Some (Str ''sb2''), Some False) =
              Inr (Some (plant_doc_renamed, Some (Str ''db0''), Some True))"
    by code_simp
  have d2: "connector_step plant_loop ?fl (Some (''CONNECTORLIST'', 1)) (''BRANCH'', 1) ''Water'' 4 5 2
              (plant_doc_renamed, Some (Str ''db0''), Some True) =
              Inr (Some (plant_doc_renamed, Some (Str ''db2''), Some False))"
    by code_simp
  have d3: "connector_step plant_loop ?fl (Some (''CONNECTORLIST'', 1)) (''BRANCH'', 1) ''Water'' 4 5 3
              (plant_doc_renamed, Some (Str ''db2''), Some False) = Inr None"
    by code_simp
  show ?thesis
    unfolding rebind_ends_def Let_def
    using w sn sq scan_two_connectors[OF s1 s2 s3] dn dv dq scan_two_connectors[OF d1 d2 d3]
    by simp
qed

lemma plant_water_replaced:
  "replacebranch plant_doc plant_loop (''BRANCH'', 1) pipes_AB (Some ''Water'') =
     Inr (plant_doc_renamed, (''BRANCH'', 1))"
  using plant_water_chained plant_water_written plant_renamed plant_renamed_ends
    plant_renamed_again
  by (simp add: replacebranch_def Let_def)

lemma reuse_chained:
  "connectcomponents plant_doc (clean_listofcomponents pipes_A_sb0) (Some ''Water'') =
     Inr reuse_doc_chained"
  by code_simp

lemma reuse_written:
  "componentsintobranch reuse_doc_chained (''BRANCH'', 1) (clean_listofcomponents pipes_A_sb0)
     (Some ''Water'') = Inr (reuse_doc_written, (''BRANCH'', 1))"
  by code_simp

lemma reuse_renamed:
  "renamenodes reuse_doc_written ''node'' = Inr reuse_doc_renamed"
  by code_simp

lemma reuse_renamed_again:
  "renamenodes reuse_doc_renamed ''node'' = Inr reuse_doc_renamed"
  by code_simp

lemma reuse_renamed_ends:
  "rebind_ends reuse_doc_renamed plant_loop (''BRANCH'', 1) ''Water'' = Inr reuse_doc_renamed"
proof -
  let ?fl = "map spaces_to_underscores (loopfields plant_loop)"
  have w: "py_upper ''Water'' = ''WATER''"
    by code_simp
  have sn: "bindE (py_nth ?fl 3) (getitem reuse_doc_renamed (loop plant_loop)) =
              Inr (Str ''p Supply Connectors'')"
    by code_simp
  have sq: "getobject reuse_doc_renamed ''CONNECTORLIST'' (Str ''p Supply Connectors'') =
              Inr (Some (''CONNECTORLIST'', 0))"
    by code_simp
  have s1: "connector_step plant_loop ?fl (Some (''CONNECTORLIST'', 0)) (''BRANCH'', 1) ''Water'' 0 1 1
              (reuse_doc_renamed, None, None) = Inr (Some (reuse_doc_renamed, Some (Str ''sb0''), Some True))"
    by code_simp
  have s2: "connector_step plant_loop ?fl (Some (''CONNECTORLIST'', 0)) (''BRANCH'', 1) ''Water'' 0 1 2
              (reuse_doc_renamed, Some (Str ''sb0''), Some True) =
              Inr (Some (reuse_doc_renamed, Some (Str ''sb2''), Some False))"
    by code_simp
  have s3: "connector_step plant_loop ?fl (Some (''CONNECTORLIST'', 0)) (''BRANCH'', 1) ''Water'' 0 1 3
              (reuse_doc_renamed, Some (Str ''sb2''), Some False) = Inr None"
    by code_simp
  have dn: "py_nth ?fl 7 = Inr ''Demand_Side_Connector_List_Name''"
    by code_simp
  have dv: "getitem reuse_doc_renamed (loop plant_loop) ''Demand_Side_Connector_List_Name'' =
              Inr (Str ''p Demand Connectors'')"
    by code_simp
  have dq: "getobject reuse_doc_renamed ''CONNECTORLIST'' (Str ''p Demand Connectors'') =
              Inr (Some (''CONNECTORLIST'', 1))"
    by code_simp
  have d1: "connector_step plant_loop ?fl (Some (''CONNECTORLIST'', 1)) (''BRANCH'', 1) ''Water'' 4 5 1
              (reuse_doc_renamed, Some (Str ''sb2''), Some False) =
              Inr (Some (reuse_doc_renamed, Some (Str ''db0''), Some True))"
    by code_simp
  have d2: "connector_step plant_loop ?fl (Some (''CONNECTORLIST'', 1)) (''BRANCH'', 1) ''Water'' 4 5 2
              (reuse_doc_renamed, Some (Str ''db0''), Some True) =
              Inr (Some (reuse_doc_renamed, Some (Str ''db2''), Some False))"
    by code_simp
  have d3: "connector_step plant_loop ?fl (Some (''CONNECTORLIST'', 1)) (''BRANCH'', 1) ''Water'' 4 5 3
              (reuse_doc_renamed, Some (Str ''db2''), Some False) = Inr None"
    by code_simp
  show ?thesis
    unfolding rebind_ends_def Let_def
    using w sn sq scan_two_connectors[OF s1 s2 s3] dn dv dq scan_two_connectors[OF d1 d2 d3]
    by simp
qed

lemma listed_two_connectors:
  assumes "connector_at d cl 1 = Inr (Some s)"
    and "connector_at d cl 2 = Inr (Some m)"
    and "connector_at d cl 3 = Inr None"
  shows "listed_connectors d cl 1 = [s, m]"
proof -
  have 3: "listed_connectors d cl 3 = []"
    using assms(3) by (subst listed_connectors.simps) simp
  have 2: "listed_connectors d cl 2 = [m]"
    using assms(2) 3 by (subst listed_connectors.simps) (simp add: numeral_3_eq_3 numeral_2_eq_2)
  show ?thesis
    using assms(1) 2 by (subst listed_connectors.simps) (simp add: numeral_2_eq_2)
qed

lemma plant_renamed_sides:
  "side_connectors plant_doc_renamed plant_loop 3 = [(''CONNECTOR:SPLITTER'', 0), (''CONNECTOR:MIXER'', 0)] \<and>
   side_connectors plant_doc_renamed plant_loop 7 = [(''CONNECTOR:SPLITTER'', 1), (''CONNECTOR:MIXER'', 1)]"
proof -
  have sn: "bindE (py_nth (map spaces_to_underscores (loopfields plant_loop)) 3)
              (getitem plant_doc_renamed (loop plant_loop)) = Inr (Str ''p Supply Connectors'')"
    by code_simp
  have sq: "getobject plant_doc_renamed ''CONNECTORLIST'' (Str ''p Supply Connectors'') =
              Inr (Some (''CONNECTORLIST'', 0))"
    by code_simp
  have s1: "connector_at plant_doc_renamed (''CONNECTORLIST'', 0) 1 = Inr (Some (''CONNECTOR:SPLITTER'', 0))"
    by code_simp
  have s2: "connector_at plant_doc_renamed (''CONNECTORLIST'', 0) 2 = Inr (Some (''CONNECTOR:MIXER'', 0))"
    by code_simp
  have s3: "connector_at plant_doc_renamed (''CONNECTORLIST'', 0) 3 = Inr None"
    by code_simp
  have dn: "bindE (py_nth (map spaces_to_underscores (loopfields plant_loop)) 7)
              (getitem plant_doc_renamed (loop plant_loop)) = Inr (Str ''p Demand Connectors'')"
    by code_simp
  have dq: "getobject plant_doc_renamed ''CONNECTORLIST'' (Str ''p Demand Connectors'') =
              Inr (Some (''CONNECTORLIST'', 1))"
    by code_simp
  have d1: "connector_at plant_doc_renamed (''CONNECTORLIST'', 1) 1 = Inr (Some (''CONNECTOR:SPLITTER'', 1))"
    by code_simp
  have d2: "connector_at plant_doc_renamed (''CONNECTORLIST'', 1) 2 = Inr (Some (''CONNECTOR:MIXER'', 1))"
    by code_simp
  have d3: "connector_at plant_doc_renamed (''CONNECTORLIST'', 1) 3 = Inr None"
    by code_simp
  show ?thesis
    using sn sq dn dq listed_two_connectors[OF s1 s2 s3] listed_two_connectors[OF d1 d2 d3]
    by (simp add: side_connectors_def)
qed

lemma plant_renamed_inner:
  "\<not> boundary_branch plant_doc_renamed plant_loop ''Water'' (Str ''sb1'')"
proof -
  have w: "py_upper ''Water'' = ''WATER''"
    by code_simp
  have b1: "\<not> boundary_connector plant_doc_renamed (''CONNECTOR:SPLITTER'', 0) (Str ''sb1'')"
    by code_simp
  have b2: "\<not> boundary_connector plant_doc_renamed (''CONNECTOR:MIXER'', 0) (Str ''sb1'')"
    by code_simp
  have b3: "\<not> boundary_connector plant_doc_renamed (''CONNECTOR:SPLITTER'', 1) (Str ''sb1'')"
    by code_simp
  have b4: "\<not> boundary_connector plant_doc_renamed (''CONNECTOR:MIXER'', 1) (Str ''sb1'')"
    by code_simp
  show ?thesis
    unfolding boundary_branch_def
    using plant_renamed_sides w b1 b2 b3 b4 by simp
qed


lemma reuse_renamed_sides:
  "side_connectors reuse_doc_renamed plant_loop 3 = [(''CONNECTOR:SPLITTER'', 0), (''CONNECTOR:MIXER'', 0)] \<and>
   side_connectors reuse_doc_renamed plant_loop 7 = [(''CONNECTOR:SPLITTER'', 1), (''CONNECTOR:MIXER'', 1)]"
proof -
  have sn: "bindE (py_nth (map spaces_to_underscores (loopfields plant_loop)) 3)
              (getitem reuse_doc_renamed (loop plant_loop)) = Inr (Str ''p Supply Connectors'')"
    by code_simp
  have sq: "getobject reuse_doc_renamed ''CONNECTORLIST'' (Str ''p Supply Connectors'') =
              Inr (Some (''CONNECTORLIST'', 0))"
    by code_simp
  have s1: "connector_at reuse_doc_renamed (''CONNECTORLIST'', 0) 1 = Inr (Some (''CONNECTOR:SPLITTER'', 0))"
    by code_simp
  have s2: "connector_at reuse_doc_renamed (''CONNECTORLIST'', 0) 2 = Inr (Some (''CONNECTOR:MIXER'', 0))"
    by code_simp
  have s3: "connector_at reuse_doc_renamed (''CONNECTORLIST'', 0) 3 = Inr None"
    by code_simp
  have dn: "bindE (py_nth (map spaces_to_underscores (loopfields plant_loop)) 7)
              (getitem reuse_doc_renamed (loop plant_loop)) = Inr (Str ''p Demand Connectors'')"
    by code_simp
  have dq: "getobject reuse_doc_renamed ''CONNECTORLIST'' (Str ''p Demand Connectors'') =
              Inr (Some (''CONNECTORLIST'', 1))"
    by code_simp
  have d1: "connector_at reuse_doc_renamed (''CONNECTORLIST'', 1) 1 = Inr (Some (''CONNECTOR:SPLITTER'', 1))"
    by code_simp
  have d2: "connector_at reuse_doc_renamed (''CONNECTORLIST'', 1) 2 = Inr (Some (''CONNECTOR:MIXER'', 1))"
    by code_simp
  have d3: "connector_at reuse_doc_renamed (''CONNECTORLIST'', 1) 3 = Inr None"
    by code_simp
  show ?thesis
    using sn sq dn dq listed_two_connectors[OF s1 s2 s3] listed_two_connectors[OF d1 d2 d3]
    by (simp add: side_connectors_def)
qed

lemma reuse_renamed_inner:
  "\<not> boundary_branch reuse_doc_renamed plant_loop ''Water'' (Str ''sb1'')"
proof -
  have w: "py_upper ''Water'' = ''WATER''"
    by code_simp
  have b1: "\<not> boundary_connector reuse_doc_renamed (''CONNECTOR:SPLITTER'', 0) (Str ''sb1'')"
    by code_simp
  have b2: "\<not> boundary_connector reuse_doc_renamed (''CONNECTOR:MIXER'', 0) (Str ''sb1'')"
    by code_simp
  have b3: "\<not> boundary_connector reuse_doc_renamed (''CONNECTOR:SPLITTER'', 1) (Str ''sb1'')"
    by code_simp
  have b4: "\<not> boundary_connector reuse_doc_renamed (''CONNECTOR:MIXER'', 1) (Str ''sb1'')"
    by code_simp
  show ?thesis
    unfolding boundary_branch_def
    using reuse_renamed_sides w b1 b2 b3 b4 by simp
qed


text \<open>
  Claim C5, as amended. Take a successful call of \<^verbatim>\<open>replacebranch\<close> and the document as it
  stands when the connector lists are scanned, after chaining, writing and the first rename
  propagation. Let the name of the branch be at the boundary of no connector that the scans
  visit: it is the \<^verbatim>\<open>Inlet_Branch_Name\<close> of no splitter and the \<^verbatim>\<open>Outlet_Branch_Name\<close> of no
  mixer of the loop's supply connector list or, for water, of its demand connector list. Then
  the scans stage nothing and leave the document as it is: the result is the document that
  chaining, writing and two rename propagations produce, and the branch returned is the one
  given. Let moreover the loop object be neither one of the listed components nor the branch
  written, and let a field of the loop that \<^verbatim>\<open>replacebranch\<close> reads (\<open>flnames[k]\<close>: the
  inlet and outlet node of a side for \<open>k\<close> = 0, 1, 4, 5) hold an identifier that is the old
  identifier of no pending pair at either rename propagation. Then that field holds the same
  identifier after the call, and so does every field bound to this identifier in an object
  that is neither a listed component nor the branch written.
\<close>

theorem replacebranch_nonboundary:
  assumes chained: "connectcomponents d (clean_listofcomponents listofcomponents) (Some fluid) = Inr d1"
    and written: "componentsintobranch d1 branch (clean_listofcomponents listofcomponents)
                    (Some fluid) = Inr (d2, thebranch)"
    and renamed: "renamenodes d2 ''node'' = Inr d3"
    and name: "getitem d3 branch ''Name'' = Inr nm"
    and nb: "\<not> boundary_branch d3 lp fluid nm"
    and run: "replacebranch d lp branch listofcomponents (Some fluid) = Inr (d', branch')"
    and loopfield: "py_nth (map spaces_to_underscores (loopfields lp)) k = Inr f0"
    and held: "getitem d (loop lp) f0 = Inr (Str l)"
    and apart: "loop lp \<notin> fst ` set (clean_listofcomponents listofcomponents)"
               "loop lp \<noteq> thebranch"
    and fresh: "Str l \<notin> set (old_identifiers d2)" "Str l \<notin> set (old_identifiers d3)"
  shows "rebind_ends d3 lp branch fluid = Inr d3 \<and> renamenodes d3 ''node'' = Inr d' \<and>
         branch' = branch \<and>
         getitem d' (loop lp) f0 = Inr (Str l) \<and>
         (\<forall>r f. r \<notin> fst ` set (clean_listofcomponents listofcomponents) \<longrightarrow> r \<noteq> thebranch \<longrightarrow>
                getitem d r f = Inr (Str l) \<longrightarrow> getitem d' r f = Inr (Str l))"
proof -
  from run chained written renamed obtain d5 where
    ends: "rebind_ends d3 lp branch fluid = Inr d5" and
    fin: "renamenodes d5 ''node'' = Inr d'" and br: "branch' = branch"
    by (auto simp: replacebranch_def Let_def bindE_Inr_iff)
  from rebind_ends_apart[OF name nb ends] have d5: "d5 = d3" .
  have kept: "getitem d' r f = Inr (Str l)"
    if r: "r \<notin> fst ` set (clean_listofcomponents listofcomponents)" "r \<noteq> thebranch"
      and b: "getitem d r f = Inr (Str l)" for r f
  proof -
    from connectcomponents_other[OF chained r(1)] componentsintobranch_other[OF written r(2)] b
    have "getitem d2 r f = Inr (Str l)"
      by (simp add: getitem_def)
    from renamenodes_kept[OF renamed this fresh(1)]
    have "getitem d3 r f = Inr (Str l)" .
    from renamenodes_kept[OF fin[unfolded d5] this fresh(2)] show ?thesis .
  qed
  from kept[OF apart held] kept ends fin br d5 show ?thesis by simp
qed

theorem replacebranch_nonboundary_witness:
  "connectcomponents plant_doc (clean_listofcomponents pipes_AB) (Some ''Water'') =
     Inr plant_doc_chained \<and>
   componentsintobranch plant_doc_chained (''BRANCH'', 1) (clean_listofcomponents pipes_AB)
     (Some ''Water'') = Inr (plant_doc_written, (''BRANCH'', 1)) \<and>
   renamenodes plant_doc_written ''node'' = Inr plant_doc_renamed \<and>
   getitem plant_doc_renamed (''BRANCH'', 1) ''Name'' = Inr (Str ''sb1'') \<and>
   \<not> boundary_branch plant_doc_renamed plant_loop ''Water'' (Str ''sb1'') \<and>
   replacebranch plant_doc plant_loop (''BRANCH'', 1) pipes_AB (Some ''Water'') =
     Inr (plant_doc_renamed, (''BRANCH'', 1)) \<and>
   py_nth (map spaces_to_underscores (loopfields plant_loop)) 0 =
     Inr ''Plant_Side_Inlet_Node_Name'' \<and>
   getitem plant_doc (loop plant_loop) ''Plant_Side_Inlet_Node_Name'' =
     Inr (Str ''p Supply Inlet'') \<and>
   loop plant_loop \<notin> fst ` set (clean_listofcomponents pipes_AB) \<and>
   loop plant_loop \<noteq> (''BRANCH'', 1) \<and>
   Str ''p Supply Inlet'' \<notin> set (old_identifiers plant_doc_written) \<and>
   Str ''p Supply Inlet'' \<notin> set (old_identifiers plant_doc_renamed) \<and>
   getitem plant_doc (''PIPE:ADIABATIC'', 0) ''Inlet_Node_Name'' = Inr (Str ''p Supply Inlet'') \<and>
   rebind_ends plant_doc_renamed plant_loop (''BRANCH'', 1) ''Water'' = Inr plant_doc_renamed \<and>
   renamenodes plant_doc_renamed ''node'' = Inr plant_doc_renamed \<and>
   getitem plant_doc_renamed (loop plant_loop) ''Plant_Side_Inlet_Node_Name'' =
     Inr (Str ''p Supply Inlet'') \<and>
   getitem plant_doc_renamed (''PIPE:ADIABATIC'', 0) ''Inlet_Node_Name'' =
     Inr (Str ''p Supply Inlet'')"
proof -
  have name: "getitem plant_doc_renamed (''BRANCH'', 1) ''Name'' = Inr (Str ''sb1'')"
    by code_simp
  have loopfield: "py_nth (map spaces_to_underscores (loopfields plant_loop)) 0 =
                     Inr ''Plant_Side_Inlet_Node_Name''"
    by code_simp
  have held: "getitem plant_doc (loop plant_loop) ''Plant_Side_Inlet_Node_Name'' =
                Inr (Str ''p Supply Inlet'')"
    by code_simp
  have apart: "loop plant_loop \<notin> fst ` set (clean_listofcomponents pipes_AB)"
              "loop plant_loop \<noteq> (''BRANCH'', 1)"
    by (simp_all add: clean_listofcomponents_def pipes_AB_def plant_loop_def)
  have fresh: "Str ''p Supply Inlet'' \<notin> set (old_identifiers plant_doc_written)"
              "Str ''p Supply Inlet'' \<notin> set (old_identifiers plant_doc_renamed)"
    by code_simp+
  have pipe: "getitem plant_doc (''PIPE:ADIABATIC'', 0) ''Inlet_Node_Name'' =
                Inr (Str ''p Supply Inlet'')"
    by code_simp
  have pipe_apart: "(''PIPE:ADIABATIC'', 0) \<notin> fst ` set (clean_listofcomponents pipes_AB)"
    by (simp add: clean_listofcomponents_def pipes_AB_def)
  from replacebranch_nonboundary[OF plant_water_chained plant_water_written plant_renamed
         name plant_renamed_inner plant_water_replaced loopfield held apart fresh]
  show ?thesis
    using plant_water_chained plant_water_written plant_renamed name plant_renamed_inner
      plant_water_replaced loopfield held apart fresh pipe pipe_apart
    by simp
qed

text \<open>
  Claim C5 as stated fails. The branch \<^verbatim>\<open>sb1\<close> is at no boundary and the loop object is not
  among the components, yet replacing the branch by \<^verbatim>\<open>[A, sb0_pipe]\<close> changes the loop's
  supply inlet node field from \<^verbatim>\<open>p Supply Inlet\<close> to \<^verbatim>\<open>A_sb0_pipe_node\<close>: chaining stages the
  old inlet of \<^verbatim>\<open>sb0_pipe\<close>, which is the loop's inlet node, as the old identifier of a
  pending pair, and rename propagation rewrites every node field that holds it.
\<close>

theorem replacebranch_nonboundary_counterexample:
  "getitem reuse_doc_renamed (''BRANCH'', 1) ''Name'' = Inr (Str ''sb1'') \<and>
   \<not> boundary_branch reuse_doc_renamed plant_loop ''Water'' (Str ''sb1'') \<and>
   loop plant_loop \<notin> fst ` set (clean_listofcomponents pipes_A_sb0) \<and>
   getitem plant_doc (loop plant_loop) ''Plant_Side_Inlet_Node_Name'' =
     Inr (Str ''p Supply Inlet'') \<and>
   connectcomponents plant_doc (clean_listofcomponents pipes_A_sb0) (Some ''Water'') =
     Inr reuse_doc_chained \<and>
   componentsintobranch reuse_doc_chained (''BRANCH'', 1) (clean_listofcomponents pipes_A_sb0)
     (Some ''Water'') = Inr (reuse_doc_written, (''BRANCH'', 1)) \<and>
   Str ''p Supply Inlet'' \<in> set (old_identifiers reuse_doc_written) \<and>
   renamenodes reuse_doc_written ''node'' = Inr reuse_doc_renamed \<and>
   replacebranch plant_doc plant_loop (''BRANCH'', 1) pipes_A_sb0 (Some ''Water'') =
     Inr (reuse_doc_renamed, (''BRANCH'', 1)) \<and>
   getitem reuse_doc_renamed (loop plant_loop) ''Plant_Side_Inlet_Node_Name'' =
     Inr (Str ''A_sb0_pipe_node'')"
proof -
  have "getitem reuse_doc_renamed (''BRANCH'', 1) ''Name'' = Inr (Str ''sb1'')"
    by code_simp
  moreover have "loop plant_loop \<notin> fst ` set (clean_listofcomponents pipes_A_sb0)"
    by (simp add: clean_listofcomponents_def pipes_A_sb0_def plant_loop_def)
  moreover have "getitem plant_doc (loop plant_loop) ''Plant_Side_Inlet_Node_Name'' =
     Inr (Str ''p Supply Inlet'')"
    by code_simp
  moreover have "Str ''p Supply Inlet'' \<in> set (old_identifiers reuse_doc_written)"
    by code_simp
  moreover have "replacebranch plant_doc plant_loop (''BRANCH'', 1) pipes_A_sb0 (Some ''Water'') =
     Inr (reuse_doc_renamed, (''BRANCH'', 1))"
    using reuse_chained reuse_written reuse_renamed reuse_renamed_ends reuse_renamed_again
    by (simp add: replacebranch_def Let_def)
  moreover have "getitem reuse_doc_renamed (loop plant_loop) ''Plant_Side_Inlet_Node_Name'' =
     Inr (Str ''A_sb0_pipe_node'')"
    by code_simp
  ultimately show ?thesis
    using reuse_renamed_inner reuse_chained reuse_written reuse_renamed by simp
qed

end
